theory Spec2Isabelle
  imports Complex_Main
begin

section \<open>Errors\<close>

text \<open>
  The exceptions that the modelled code and the tensor operations it calls can raise.
  A computation that can raise returns \<open>error + 'a\<close>, with \<open>Inl\<close> for the exception.
\<close>

datatype error = AssertionError | AttributeError | IndexError | RuntimeError
  | TypeError | ValueError

definition err_bind :: "error + 'a \<Rightarrow> ('a \<Rightarrow> error + 'b) \<Rightarrow> error + 'b" where
  "err_bind m f = (case m of Inl e \<Rightarrow> Inl e | Inr x \<Rightarrow> f x)"

section \<open>Tensors\<close>

text \<open>
  A tensor is a shape and its elements in row-major order, as a contiguous torch tensor
  stores them. Floating-point elements are modelled as real numbers: rounding, infinities
  and NaN are outside the model.
\<close>

datatype 'a tensor = Tensor (shape: "nat list") (data: "'a list")

definition wf_tensor :: "'a tensor \<Rightarrow> bool" where
  "wf_tensor t \<longleftrightarrow> length (data t) = prod_list (shape t)"

definition dim :: "'a tensor \<Rightarrow> nat" where
  "dim t = length (shape t)"

text \<open>Row-major offset of a multi-index, and the multi-index of an offset.\<close>

fun ravel :: "nat list \<Rightarrow> nat list \<Rightarrow> nat" where
  "ravel (d # ds) (i # is) = i * prod_list ds + ravel ds is"
| "ravel _ _ = 0"

fun unravel :: "nat list \<Rightarrow> nat \<Rightarrow> nat list" where
  "unravel [] n = []"
| "unravel (d # ds) n = (n div prod_list ds) # unravel ds (n mod prod_list ds)"

definition valid_index :: "nat list \<Rightarrow> nat list \<Rightarrow> bool" where
  "valid_index s idx \<longleftrightarrow> list_all2 (<) idx s"

text \<open>
  The element at a multi-index. Every operation below reads a tensor only at indices
  that are valid for its shape, behind the checks that make torch raise otherwise.
\<close>

definition tget :: "'a tensor \<Rightarrow> nat list \<Rightarrow> 'a" where
  "tget t idx = data t ! ravel (shape t) idx"

definition tabulate :: "nat list \<Rightarrow> (nat list \<Rightarrow> 'a) \<Rightarrow> 'a tensor" where
  "tabulate s f = Tensor s (map (\<lambda>n. f (unravel s n)) [0..<prod_list s])"

definition tmap :: "('a \<Rightarrow> 'b) \<Rightarrow> 'a tensor \<Rightarrow> 'b tensor" where
  "tmap f t = Tensor (shape t) (map f (data t))"

definition tall :: "('a \<Rightarrow> bool) \<Rightarrow> 'a tensor \<Rightarrow> bool" where
  "tall P t = list_all P (data t)"

subsection \<open>Broadcasting\<close>

text \<open>
  torch aligns two shapes at their last dimension; two sizes are compatible when they
  are equal or one of them is 1, and a missing leading dimension counts as 1.
\<close>

fun broadcast_rev :: "nat list \<Rightarrow> nat list \<Rightarrow> nat list option" where
  "broadcast_rev [] ys = Some ys"
| "broadcast_rev xs [] = Some xs"
| "broadcast_rev (x # xs) (y # ys) =
     (if x = y \<or> y = 1 then map_option ((#) x) (broadcast_rev xs ys)
      else if x = 1 then map_option ((#) y) (broadcast_rev xs ys)
      else None)"

definition broadcast_shapes :: "nat list \<Rightarrow> nat list \<Rightarrow> nat list option" where
  "broadcast_shapes a b = map_option rev (broadcast_rev (rev a) (rev b))"

text \<open>
  The index at which a tensor of shape \<open>s\<close> is read for the index \<open>idx\<close> of a broadcast
  result: the two are aligned at the last dimension, and the position is 0 where \<open>s\<close>
  has size 1.
\<close>

definition bpos :: "nat \<Rightarrow> nat \<Rightarrow> nat" where
  "bpos d i = (if d = 1 then 0 else i)"

definition bindex :: "nat list \<Rightarrow> nat list \<Rightarrow> nat list" where
  "bindex s idx = rev (map2 bpos (rev s) (rev idx))"

definition bget :: "'a tensor \<Rightarrow> nat list \<Rightarrow> 'a" where
  "bget t idx = tget t (bindex (shape t) idx)"

text \<open>An elementwise binary operation on two tensors; incompatible shapes raise.\<close>

definition binop :: "('a \<Rightarrow> 'b \<Rightarrow> 'c) \<Rightarrow> 'a tensor \<Rightarrow> 'b tensor \<Rightarrow> error + 'c tensor" where
  "binop f a b =
     (case broadcast_shapes (shape a) (shape b) of
        None \<Rightarrow> Inl RuntimeError
      | Some s \<Rightarrow> Inr (tabulate s (\<lambda>idx. f (bget a idx) (bget b idx))))"

text \<open>\<open>torch.broadcast_tensors\<close> (also behind \<open>broadcast_all\<close>) on two tensors.\<close>

definition broadcast_tensors :: "'a tensor \<Rightarrow> 'b tensor \<Rightarrow> error + ('a tensor \<times> 'b tensor)" where
  "broadcast_tensors a b =
     (case broadcast_shapes (shape a) (shape b) of
        None \<Rightarrow> Inl RuntimeError
      | Some s \<Rightarrow> Inr (tabulate s (bget a), tabulate s (bget b)))"

subsection \<open>Shape operations of torch\<close>

text \<open>A dimension argument \<open>d\<close> of a rank-\<open>n\<close> tensor: \<open>-n \<le> d < n\<close>, negative from the end.\<close>

definition norm_dim :: "nat \<Rightarrow> int \<Rightarrow> error + nat" where
  "norm_dim n d =
     (if 0 \<le> d \<and> d < int n then Inr (nat d)
      else if - int n \<le> d \<and> d < 0 then Inr (nat (int n + d))
      else Inl IndexError)"

text \<open>\<open>t.size(d)\<close>.\<close>

definition tsize :: "'a tensor \<Rightarrow> int \<Rightarrow> error + nat" where
  "tsize t d = err_bind (norm_dim (dim t) d) (\<lambda>k. Inr (shape t ! k))"

definition swap :: "nat \<Rightarrow> nat \<Rightarrow> 'a list \<Rightarrow> 'a list" where
  "swap i j xs = xs[i := xs ! j, j := xs ! i]"

text \<open>\<open>t.transpose(d0, d1)\<close>.\<close>

definition transpose :: "'a tensor \<Rightarrow> int \<Rightarrow> int \<Rightarrow> error + 'a tensor" where
  "transpose t d0 d1 =
     err_bind (norm_dim (dim t) d0) (\<lambda>i.
     err_bind (norm_dim (dim t) d1) (\<lambda>j.
       Inr (tabulate (swap i j (shape t)) (\<lambda>idx. tget t (swap i j idx)))))"

text \<open>\<open>t.squeeze(-1)\<close> drops the last dimension when its size is 1.\<close>

definition squeeze_last :: "'a tensor \<Rightarrow> 'a tensor" where
  "squeeze_last t =
     (if shape t \<noteq> [] \<and> last (shape t) = 1 then Tensor (butlast (shape t)) (data t) else t)"

text \<open>\<open>t.unsqueeze(-1)\<close>.\<close>

definition unsqueeze_last :: "'a tensor \<Rightarrow> 'a tensor" where
  "unsqueeze_last t = Tensor (shape t @ [1]) (data t)"

text \<open>\<open>t.reshape(s)\<close> for a shape without \<open>-1\<close>: the same elements in the same order.\<close>

definition reshape :: "'a tensor \<Rightarrow> nat list \<Rightarrow> error + 'a tensor" where
  "reshape t s =
     (if prod_list s = prod_list (shape t) then Inr (Tensor s (data t)) else Inl RuntimeError)"

text \<open>\<open>t.view(sizes)\<close>, where one size may be \<open>-1\<close> and is then inferred.\<close>

definition view :: "'a tensor \<Rightarrow> int list \<Rightarrow> error + 'a tensor" where
  "view t sizes =
     (let n = prod_list (shape t);
          known = prod_list (map nat (filter (\<lambda>d. d \<noteq> - 1) sizes));
          holes = length (filter (\<lambda>d. d = - 1) sizes)
      in if list_ex (\<lambda>d. d < - 1) sizes \<or> 1 < holes then Inl RuntimeError
         else if holes = 1 then
           (if 0 < known \<and> n mod known = 0
            then Inr (Tensor (map (\<lambda>d. if d = - 1 then n div known else nat d) sizes) (data t))
            else Inl RuntimeError)
         else if known = n then Inr (Tensor (map nat sizes) (data t))
         else Inl RuntimeError)"

text \<open>
  \<open>t.expand(sizes)\<close>: new leading dimensions may be added, an existing dimension keeps
  its size (also written \<open>-1\<close>) or grows from 1.
\<close>

definition expand :: "'a tensor \<Rightarrow> int list \<Rightarrow> error + 'a tensor" where
  "expand t sizes =
     (let k = length sizes - dim t; lead = take k sizes; trail = drop k sizes
      in if length sizes < dim t \<or> list_ex (\<lambda>e. e < 0) lead
            \<or> list_ex (\<lambda>(d, e). e \<noteq> - 1 \<and> e \<noteq> int d \<and> (d \<noteq> 1 \<or> e < 0)) (zip (shape t) trail)
         then Inl RuntimeError
         else Inr (tabulate
                (map nat lead @ map2 (\<lambda>d e. if e = - 1 then d else nat e) (shape t) trail)
                (bget t)))"

text \<open>\<open>t[..., :1]\<close>: the first element along the last dimension.\<close>

definition narrow_last1 :: "'a tensor \<Rightarrow> error + 'a tensor" where
  "narrow_last1 t =
     (if shape t = [] then Inl IndexError
      else Inr (tabulate (butlast (shape t) @ [min 1 (last (shape t))]) (tget t)))"

text \<open>
  \<open>input.gather(-1, index)\<close>: \<open>out[i, j] = input[i, index[i, j]]\<close> along the last
  dimension. Both tensors have the same rank, at least 1 here, \<open>index\<close> is nowhere
  larger than \<open>input\<close> in the other dimensions, and an index outside the last dimension
  raises.
\<close>

definition gather_last :: "'a tensor \<Rightarrow> int tensor \<Rightarrow> error + 'a tensor" where
  "gather_last input index =
     (if shape input = [] \<or> dim index \<noteq> dim input
         \<or> list_ex (\<lambda>(i, n). n < i) (zip (butlast (shape index)) (butlast (shape input)))
         \<or> list_ex (\<lambda>v. v < 0 \<or> int (last (shape input)) \<le> v) (data index)
      then Inl RuntimeError
      else Inr (tabulate (shape index)
                 (\<lambda>idx. tget input (butlast idx @ [nat (tget index idx)]))))"

text \<open>\<open>torch.arange(n)\<close>.\<close>

definition arange :: "nat \<Rightarrow> int tensor" where
  "arange n = Tensor [n] (map int [0..<n])"

text \<open>\<open>t.min()\<close> over all elements; an empty tensor has none.\<close>

definition tmin :: "('a::linorder) tensor \<Rightarrow> error + 'a" where
  "tmin t = (case data t of [] \<Rightarrow> Inl RuntimeError | x # xs \<Rightarrow> Inr (fold min xs x))"

text \<open>\<open>t.sum(-1)\<close>; a tensor of rank 0 is its own sum.\<close>

definition sum_last :: "real tensor \<Rightarrow> real tensor" where
  "sum_last t =
     (if shape t = [] then t
      else tabulate (butlast (shape t))
             (\<lambda>idx. sum_list (map (\<lambda>j. tget t (idx @ [j])) [0..<last (shape t)])))"

text \<open>\<open>torch.where(c, a, b)\<close>, the three operands broadcast together.\<close>

definition twhere :: "bool tensor \<Rightarrow> 'a tensor \<Rightarrow> 'a tensor \<Rightarrow> error + 'a tensor" where
  "twhere c a b =
     err_bind (binop Pair a b) (\<lambda>ab. binop (\<lambda>c (x, y). if c then x else y) c ab)"

subsection \<open>Elementwise functions\<close>

text \<open>\<open>torch.round\<close> rounds to the nearest integer, a tie to the even one.\<close>

definition round_half_even :: "real \<Rightarrow> real" where
  "round_half_even x =
     (let f = \<lfloor>x\<rfloor>; r = x - of_int f
      in if r < 1 / 2 then of_int f
         else if 1 / 2 < r then of_int (f + 1)
         else if even f then of_int f else of_int (f + 1))"

text \<open>
  \<open>softplus(x) = log(1 + exp(x))\<close> and the logistic function. torch switches softplus
  to the identity above a threshold, where the two agree to rounding; on real numbers
  the function is the logarithm throughout.
\<close>

definition softplus :: "real \<Rightarrow> real" where
  "softplus x = ln (1 + exp x)"

definition sigmoid :: "real \<Rightarrow> real" where
  "sigmoid x = 1 / (1 + exp (- x))"

text \<open>
  \<open>lgamma\<close>, the logarithm of the absolute value of the Gamma function, with Gauss's
  limit \<open>n! n\<^sup>x / (x (x + 1) \<dots> (x + n))\<close> for the Gamma function.
\<close>

definition Gamma_fun :: "real \<Rightarrow> real" where
  "Gamma_fun x = lim (\<lambda>n. fact n * real n powr x / (\<Prod>k = 0..n. x + real k))"

definition lgamma :: "real \<Rightarrow> real" where
  "lgamma x = ln \<bar>Gamma_fun x\<bar>"

section \<open>Distributions\<close>

text \<open>
  The classes of \<open>pyro/distributions/torch.py\<close>. Each constructor of the host
  framework validates its parameters when validation is on; a constructor called without
  \<open>validate_args\<close> reads the framework's default, the argument \<open>validate\<close> below.
\<close>

subsection \<open>Validation of a sample\<close>

text \<open>
  The shape test of the framework's \<open>_validate_sample\<close>: walking both shapes from
  the last dimension, two sizes must be equal or one of them 1.
\<close>

definition shapes_compatible :: "nat list \<Rightarrow> nat list \<Rightarrow> bool" where
  "shapes_compatible actual expected =
     list_all (\<lambda>(i, j). i = 1 \<or> j = 1 \<or> i = j) (zip (rev actual) (rev expected))"

definition validate_sample :: "nat list \<Rightarrow> ('a \<Rightarrow> bool) \<Rightarrow> 'a tensor \<Rightarrow> error + unit" where
  "validate_sample batch_shape support value =
     (if \<not> shapes_compatible (shape value) batch_shape then Inl ValueError
      else if \<not> tall support value then Inl ValueError
      else Inr ())"

definition is_integer :: "real \<Rightarrow> bool" where
  "is_integer x \<longleftrightarrow> of_int \<lfloor>x\<rfloor> = x"

subsection \<open>Beta\<close>

record Beta =
  concentration1 :: "real tensor"
  concentration0 :: "real tensor"

text \<open>The constructor \<open>Beta(concentration1, concentration0)\<close> of the host framework.\<close>

definition Beta_init :: "bool \<Rightarrow> real tensor \<Rightarrow> real tensor \<Rightarrow> error + Beta" where
  "Beta_init validate c1 c0 =
     err_bind (broadcast_tensors c1 c0) (\<lambda>(b1, b0).
       if validate \<and> \<not> (tall (\<lambda>x. 0 < x) b1 \<and> tall (\<lambda>x. 0 < x) b0) then Inl ValueError
       else Inr \<lparr>concentration1 = b1, concentration0 = b0\<rparr>)"

subsection \<open>Gamma\<close>

record Gamma =
  concentration :: "real tensor"
  rate :: "real tensor"

definition Gamma_init :: "bool \<Rightarrow> real tensor \<Rightarrow> real tensor \<Rightarrow> error + Gamma" where
  "Gamma_init validate c r =
     err_bind (broadcast_tensors c r) (\<lambda>(bc, br).
       if validate \<and> \<not> (tall (\<lambda>x. 0 < x) bc \<and> tall (\<lambda>x. 0 < x) br) then Inl ValueError
       else Inr \<lparr>Gamma.concentration = bc, rate = br\<rparr>)"

subsection \<open>Dirichlet\<close>

record Dirichlet =
  concentration :: "real tensor"

definition Dirichlet_init :: "bool \<Rightarrow> real tensor \<Rightarrow> error + Dirichlet" where
  "Dirichlet_init validate c =
     (if dim c < 1 then Inl ValueError
      else if validate \<and> \<not> tall (\<lambda>x. 0 < x) c then Inl ValueError
      else Inr \<lparr>Dirichlet.concentration = c\<rparr>)"

subsection \<open>The objects passed to \<open>conjugate_update\<close>\<close>

text \<open>
  \<open>IndependentD base n\<close> is an \<open>Independent\<close> with \<open>base_dist = base\<close> and
  \<open>reinterpreted_batch_ndims = n\<close>; \<open>OtherD\<close> is any object of another class.
\<close>

datatype dist = BetaD Beta | GammaD Gamma | DirichletD Dirichlet
  | IndependentD dist nat | OtherD

subsection \<open>\<open>Beta.conjugate_update\<close>\<close>

definition Beta_log_normalizer :: "Beta \<Rightarrow> error + real tensor" where
  "Beta_log_normalizer d =
     (let x = concentration1 d; y = concentration0 d
      in err_bind (binop (+) x y) (\<lambda>xy.
         err_bind (binop (-) (tmap lgamma xy) (tmap lgamma x)) (\<lambda>a.
           binop (-) a (tmap lgamma y))))"

definition Beta_conjugate_update :: "bool \<Rightarrow> Beta \<Rightarrow> dist \<Rightarrow> error + (Beta \<times> real tensor)" where
  "Beta_conjugate_update validate self other =
     (case other of
        BetaD other \<Rightarrow>
          err_bind (binop (+) (concentration1 self) (concentration1 other)) (\<lambda>s1.
          let c1 = tmap (\<lambda>x. x - 1) s1 in
          err_bind (binop (+) (concentration0 self) (concentration0 other)) (\<lambda>s0.
          let c0 = tmap (\<lambda>x. x - 1) s0 in
          err_bind (Beta_init validate c1 c0) (\<lambda>updated.
          err_bind (Beta_log_normalizer self) (\<lambda>n1.
          err_bind (Beta_log_normalizer other) (\<lambda>n2.
          err_bind (binop (+) n1 n2) (\<lambda>n12.
          err_bind (Beta_log_normalizer updated) (\<lambda>n3.
          err_bind (binop (-) n12 n3) (\<lambda>log_normalizer.
            Inr (updated, log_normalizer)))))))))
      | _ \<Rightarrow> Inl AssertionError)"

subsection \<open>\<open>Dirichlet.conjugate_update\<close>\<close>

definition Dirichlet_log_normalizer :: "Dirichlet \<Rightarrow> error + real tensor" where
  "Dirichlet_log_normalizer d =
     (let c = Dirichlet.concentration d
      in binop (-) (tmap lgamma (sum_last c)) (sum_last (tmap lgamma c)))"

definition Dirichlet_conjugate_update ::
  "bool \<Rightarrow> Dirichlet \<Rightarrow> dist \<Rightarrow> error + (Dirichlet \<times> real tensor)" where
  "Dirichlet_conjugate_update validate self other =
     (case other of
        DirichletD other \<Rightarrow>
          err_bind (binop (+) (Dirichlet.concentration self) (Dirichlet.concentration other)) (\<lambda>s.
          let c = tmap (\<lambda>x. x - 1) s in
          err_bind (Dirichlet_init validate c) (\<lambda>updated.
          err_bind (Dirichlet_log_normalizer self) (\<lambda>n1.
          err_bind (Dirichlet_log_normalizer other) (\<lambda>n2.
          err_bind (binop (+) n1 n2) (\<lambda>n12.
          err_bind (Dirichlet_log_normalizer updated) (\<lambda>n3.
          err_bind (binop (-) n12 n3) (\<lambda>log_normalizer.
            Inr (updated, log_normalizer))))))))
      | _ \<Rightarrow> Inl AssertionError)"

subsection \<open>\<open>Gamma.conjugate_update\<close>\<close>

definition Gamma_log_normalizer :: "Gamma \<Rightarrow> error + real tensor" where
  "Gamma_log_normalizer d =
     (let c = Gamma.concentration d
      in err_bind (binop (*) (tmap ln (rate d)) c) (\<lambda>a. binop (-) a (tmap lgamma c)))"

definition Gamma_conjugate_update ::
  "bool \<Rightarrow> Gamma \<Rightarrow> dist \<Rightarrow> error + (Gamma \<times> real tensor)" where
  "Gamma_conjugate_update validate self other =
     (case other of
        GammaD other \<Rightarrow>
          err_bind (binop (+) (Gamma.concentration self) (Gamma.concentration other)) (\<lambda>s.
          let c = tmap (\<lambda>x. x - 1) s in
          err_bind (binop (+) (rate self) (rate other)) (\<lambda>r.
          err_bind (Gamma_init validate c r) (\<lambda>updated.
          err_bind (Gamma_log_normalizer self) (\<lambda>n1.
          err_bind (Gamma_log_normalizer other) (\<lambda>n2.
          err_bind (binop (+) n1 n2) (\<lambda>n12.
          err_bind (Gamma_log_normalizer updated) (\<lambda>n3.
          err_bind (binop (-) n12 n3) (\<lambda>log_normalizer.
            Inr (updated, log_normalizer)))))))))
      | _ \<Rightarrow> Inl AssertionError)"

subsection \<open>\<open>Independent.conjugate_update\<close>\<close>

text \<open>
  Reading an attribute of an object by its name: the instance's attributes are a
  dictionary, and a name that is not in it raises \<open>AttributeError\<close>.
\<close>

definition getattr :: "(string \<times> 'a) list \<Rightarrow> string \<Rightarrow> error + 'a" where
  "getattr attrs name = (case map_of attrs name of None \<Rightarrow> Inl AttributeError | Some v \<Rightarrow> Inr v)"

text \<open>The integer attributes of an \<open>Independent\<close>, set by the host framework's constructor.\<close>

definition Independent_attrs :: "nat \<Rightarrow> (string \<times> int) list" where
  "Independent_attrs n = [(''reinterpreted_batch_ndims'', int n)]"

text \<open>
  Modelled from the spec: \<open>to_event\<close> of the distribution mixin, which is not part of
  this file. With \<open>n > 0\<close> it wraps a distribution so that \<open>n\<close> trailing batch
  dimensions count as event dimensions, with \<open>n < 0\<close> it undoes that on a wrapper, and
  the wrapper disappears when nothing is reinterpreted any more.
\<close>

fun to_event :: "dist \<Rightarrow> int \<Rightarrow> error + dist" where
  "to_event OtherD n = Inl AttributeError"
| "to_event (IndependentD base m) n =
     (if int m + n < 0 then Inl ValueError
      else if int m + n = 0 then Inr base
      else Inr (IndependentD base (nat (int m + n))))"
| "to_event d n =
     (if n < 0 then Inl ValueError else if n = 0 then Inr d else Inr (IndependentD d (nat n)))"

text \<open>
  Modelled from the spec: \<open>sum_rightmost\<close> of \<open>pyro.distributions.util\<close>, which is
  not part of this file: the sum over the \<open>n\<close> rightmost dimensions.
\<close>

definition sum_rightmost :: "real tensor \<Rightarrow> int \<Rightarrow> real tensor" where
  "sum_rightmost value n = (sum_last ^^ nat n) value"

text \<open>
  \<open>d.conjugate_update(other)\<close>, dispatched on the class of \<open>d\<close>. The clause of
  \<open>IndependentD\<close> is \<open>Independent.conjugate_update\<close>; it reads the attribute under the
  name the source spells. A class without the method raises \<open>AttributeError\<close>.
\<close>

fun conjugate_update :: "bool \<Rightarrow> dist \<Rightarrow> dist \<Rightarrow> error + (dist \<times> real tensor)" where
  "conjugate_update validate (BetaD d) other =
     err_bind (Beta_conjugate_update validate d other) (\<lambda>(u, l). Inr (BetaD u, l))"
| "conjugate_update validate (GammaD d) other =
     err_bind (Gamma_conjugate_update validate d other) (\<lambda>(u, l). Inr (GammaD u, l))"
| "conjugate_update validate (DirichletD d) other =
     err_bind (Dirichlet_conjugate_update validate d other) (\<lambda>(u, l). Inr (DirichletD u, l))"
| "conjugate_update validate (IndependentD base_dist m) other =
     err_bind (getattr (Independent_attrs m) ''reintepreted_batch_ndims'') (\<lambda>n.
     err_bind (to_event other (- n)) (\<lambda>other'.
     err_bind (conjugate_update validate base_dist other') (\<lambda>(updated, log_normalizer).
     err_bind (to_event updated n) (\<lambda>updated'.
       Inr (updated', sum_rightmost log_normalizer n)))))"
| "conjugate_update validate OtherD other = Inl AttributeError"

subsection \<open>Binomial\<close>

text \<open>
  The Python objects that can be passed as \<open>approx_sample_thresh\<close>: a finite real
  number (an int, a float, a fraction), the floats \<open>inf\<close>, \<open>-inf\<close> and \<open>nan\<close>, a
  complex number, and an object that is no \<open>numbers.Number\<close>.
\<close>

datatype pyobj = PyNum real | PyInf | PyNegInf | PyNaN | PyComplex | PyNotNumber

definition is_Number :: "pyobj \<Rightarrow> bool" where
  "is_Number x \<longleftrightarrow> x \<noteq> PyNotNumber"

text \<open>\<open>x >= 0\<close>, \<open>x < math.inf\<close> and \<open>x < m\<close> for a number \<open>m\<close> of a tensor.\<close>

fun py_ge_zero :: "pyobj \<Rightarrow> error + bool" where
  "py_ge_zero (PyNum x) = Inr (0 \<le> x)"
| "py_ge_zero PyInf = Inr True"
| "py_ge_zero PyNegInf = Inr False"
| "py_ge_zero PyNaN = Inr False"
| "py_ge_zero PyComplex = Inl TypeError"
| "py_ge_zero PyNotNumber = Inl TypeError"

fun py_lt_inf :: "pyobj \<Rightarrow> error + bool" where
  "py_lt_inf (PyNum x) = Inr True"
| "py_lt_inf PyInf = Inr False"
| "py_lt_inf PyNegInf = Inr True"
| "py_lt_inf PyNaN = Inr False"
| "py_lt_inf PyComplex = Inl TypeError"
| "py_lt_inf PyNotNumber = Inl TypeError"

fun py_lt :: "pyobj \<Rightarrow> real \<Rightarrow> error + bool" where
  "py_lt (PyNum x) m = Inr (x < m)"
| "py_lt PyInf m = Inr False"
| "py_lt PyNegInf m = Inr True"
| "py_lt PyNaN m = Inr False"
| "py_lt PyComplex m = Inl TypeError"
| "py_lt PyNotNumber m = Inl TypeError"

text \<open>
  The fields \<open>probs\<close> and \<open>logits\<close> are \<open>None\<close> when the name is not in the
  instance's \<open>__dict__\<close>.
\<close>

record Binomial =
  total_count :: "real tensor"
  probs :: "real tensor option"
  logits :: "real tensor option"
  param :: "real tensor option"
  batch_shape :: "nat list"
  validate_args :: bool
  approx_sample_thresh :: pyobj

text \<open>
  \<open>Binomial.__init__\<close>: the two assertions of this file, then the host framework's
  constructor, which takes exactly one of \<open>probs\<close> and \<open>logits\<close>, broadcasts it with
  \<open>total_count\<close> and validates the parameters when validation is on.
\<close>

definition Binomial_init ::
  "bool \<Rightarrow> real tensor \<Rightarrow> real tensor option \<Rightarrow> real tensor option \<Rightarrow> bool option \<Rightarrow> pyobj
     \<Rightarrow> error + Binomial" where
  "Binomial_init validate count ps ls va thresh =
     (if \<not> is_Number thresh then Inl AssertionError
      else err_bind (py_ge_zero thresh) (\<lambda>ok.
        if \<not> ok then Inl AssertionError
        else
          (let v = (case va of None \<Rightarrow> validate | Some b \<Rightarrow> b) in
           case (ps, ls) of
             (Some p, None) \<Rightarrow>
               err_bind (broadcast_tensors count p) (\<lambda>(n, p').
                 if v \<and> \<not> (tall (\<lambda>x. is_integer x \<and> 0 \<le> x) n \<and> tall (\<lambda>x. 0 \<le> x \<and> x \<le> 1) p')
                 then Inl ValueError
                 else Inr \<lparr>total_count = n, probs = Some p', logits = None, param = Some p',
                        batch_shape = shape p', validate_args = v,
                        approx_sample_thresh = thresh\<rparr>)
           | (None, Some l) \<Rightarrow>
               err_bind (broadcast_tensors count l) (\<lambda>(n, l').
                 if v \<and> \<not> tall (\<lambda>x. is_integer x \<and> 0 \<le> x) n
                 then Inl ValueError
                 else Inr \<lparr>total_count = n, probs = None, logits = Some l', param = Some l',
                        batch_shape = shape l', validate_args = v,
                        approx_sample_thresh = thresh\<rparr>)
           | _ \<Rightarrow> Inl ValueError)))"

text \<open>
  \<open>Binomial.expand\<close>, called without \<open>_instance\<close>: a fresh instance that gets the
  expanded parameters, the threshold, the new batch shape and the validation flag.
\<close>

definition Binomial_expand :: "Binomial \<Rightarrow> nat list \<Rightarrow> error + Binomial" where
  "Binomial_expand self bs =
     err_bind (expand (total_count self) (map int bs)) (\<lambda>n.
     err_bind (case Binomial.probs self of None \<Rightarrow> Inr None
               | Some p \<Rightarrow> err_bind (expand p (map int bs)) (\<lambda>p'. Inr (Some p'))) (\<lambda>new_probs.
     err_bind (case Binomial.logits self of None \<Rightarrow> Inr None
               | Some l \<Rightarrow> err_bind (expand l (map int bs)) (\<lambda>l'. Inr (Some l'))) (\<lambda>new_logits.
       Inr \<lparr>total_count = n, probs = new_probs, logits = new_logits,
            param = (case new_logits of Some l' \<Rightarrow> Some l' | None \<Rightarrow> new_probs),
            batch_shape = bs,
            validate_args = Binomial.validate_args self,
            approx_sample_thresh = approx_sample_thresh self\<rparr>)))"

text \<open>
  The attribute \<open>self.probs\<close>: the stored tensor, or the logistic function of the
  logits when the instance was built from logits.
\<close>

definition Binomial_probs :: "Binomial \<Rightarrow> error + real tensor" where
  "Binomial_probs self =
     (case Binomial.probs self of
        Some p \<Rightarrow> Inr p
      | None \<Rightarrow> (case Binomial.logits self of
                   Some l \<Rightarrow> Inr (tmap sigmoid l)
                 | None \<Rightarrow> Inl AttributeError))"

text \<open>
  \<open>Binomial.sample\<close>. The result says which of the two paths produced it. The random
  draws are arguments: \<open>poisson idx\<close> is the Poisson variate drawn for the element
  \<open>idx\<close> of the output, and \<open>exact\<close> is the tensor the host framework's sampler
  returns. \<open>clamped_poisson\<close> is the block under \<open>torch.no_grad()\<close>, for the output
  shape \<open>shp\<close>, \<open>p = self.probs\<close> and \<open>n = self.total_count\<close>.
\<close>

datatype sample_result = Approximate "real tensor" | Exact "real tensor"

definition clamped_poisson ::
  "nat list \<Rightarrow> real tensor \<Rightarrow> real tensor \<Rightarrow> (nat list \<Rightarrow> nat) \<Rightarrow> error + real tensor" where
  "clamped_poisson shp p n poisson =
     (let q = tmap (\<lambda>x. 1 - x) p in
      err_bind (binop min p q) (\<lambda>pq.
      err_bind (binop (*) pq n) (\<lambda>mean.
      err_bind (binop (*) p q) (\<lambda>pq'.
      err_bind (binop (*) pq' n) (\<lambda>variance.
      err_bind (binop (-) mean variance) (\<lambda>mv.
      let shift = tmap round_half_even mv in
      err_bind (expand variance (map int shp)) (\<lambda>rates.
      let result = tabulate (shape rates) (\<lambda>idx. real (poisson idx)) in
      err_bind (binop (+) result shift) (\<lambda>shifted.
      err_bind (binop min shifted n) (\<lambda>result'.
      err_bind (binop (<) p q) (\<lambda>cond.
      err_bind (binop (-) n result') (\<lambda>reflected.
        twhere cond result' reflected)))))))))))"

definition Binomial_sample ::
  "Binomial \<Rightarrow> nat list \<Rightarrow> (nat list \<Rightarrow> nat) \<Rightarrow> real tensor \<Rightarrow> error + sample_result" where
  "Binomial_sample self sample_shape poisson exact =
     err_bind (py_lt_inf (approx_sample_thresh self)) (\<lambda>finite.
     if finite then
       err_bind (tmin (total_count self)) (\<lambda>m.
       err_bind (py_lt (approx_sample_thresh self) m) (\<lambda>below.
       if below then
         (let shp = sample_shape @ Binomial.batch_shape self in
          err_bind (Binomial_probs self) (\<lambda>p.
          err_bind (clamped_poisson shp p (total_count self) poisson) (\<lambda>r.
            Inr (Approximate r))))
       else Inr (Exact exact)))
     else Inr (Exact exact))"

subsection \<open>Uniform\<close>

record Uniform =
  unbroadcasted_low :: "real tensor"
  unbroadcasted_high :: "real tensor"
  low :: "real tensor"
  high :: "real tensor"
  batch_shape :: "nat list"
  validate_args :: bool

text \<open>
  \<open>Uniform.__init__\<close>: the bounds as given are kept, then the host framework's
  constructor broadcasts them and, when validation is on, wants \<open>low < high\<close>.
\<close>

definition Uniform_init ::
  "bool \<Rightarrow> real tensor \<Rightarrow> real tensor \<Rightarrow> bool option \<Rightarrow> error + Uniform" where
  "Uniform_init validate lo hi va =
     (let v = (case va of None \<Rightarrow> validate | Some b \<Rightarrow> b) in
      err_bind (broadcast_tensors lo hi) (\<lambda>(l, h).
      err_bind (binop (<) l h) (\<lambda>lt.
        if v \<and> \<not> tall (\<lambda>b. b) lt then Inl ValueError
        else Inr \<lparr>unbroadcasted_low = lo, unbroadcasted_high = hi, low = l, high = h,
               batch_shape = shape l, validate_args = v\<rparr>)))"

text \<open>
  \<open>Uniform.expand\<close>, called without \<open>_instance\<close>: the host framework's \<open>expand\<close>
  fills the fresh instance, then the two bounds as first given are copied to it.
\<close>

definition Uniform_expand :: "Uniform \<Rightarrow> nat list \<Rightarrow> error + Uniform" where
  "Uniform_expand self bs =
     err_bind (expand (low self) (map int bs)) (\<lambda>l.
     err_bind (expand (high self) (map int bs)) (\<lambda>h.
       Inr \<lparr>unbroadcasted_low = unbroadcasted_low self,
            unbroadcasted_high = unbroadcasted_high self,
            low = l, high = h, batch_shape = bs,
            validate_args = Uniform.validate_args self\<rparr>))"

text \<open>The property \<open>support\<close>: a constraint object made from the bounds as first given.\<close>

datatype constraint = Interval "real tensor" "real tensor"

definition Uniform_support :: "Uniform \<Rightarrow> constraint" where
  "Uniform_support self = Interval (unbroadcasted_low self) (unbroadcasted_high self)"

subsection \<open>Categorical\<close>

text \<open>
  \<open>obj_id\<close> is \<open>id(self)\<close>. The last dimension of \<open>logits\<close> runs over the categories,
  the dimensions before it are the batch shape.
\<close>

record Categorical =
  obj_id :: nat
  logits :: "real tensor"
  validate_args :: bool

definition Categorical_batch_shape :: "Categorical \<Rightarrow> nat list" where
  "Categorical_batch_shape self = butlast (shape (Categorical.logits self))"

definition num_events :: "Categorical \<Rightarrow> nat" where
  "num_events self = last (shape (Categorical.logits self))"

text \<open>
  A tensor of category indices with the attribute \<open>_pyro_categorical_support\<close>, which
  is \<open>None\<close> on a tensor that does not have it.
\<close>

record Value =
  tensor :: "int tensor"
  pyro_categorical_support :: "nat option"

text \<open>The sample validation of a \<open>Categorical\<close>: its support is \<open>0, \<dots>, num_events - 1\<close>.\<close>

definition Categorical_validate_sample :: "Categorical \<Rightarrow> int tensor \<Rightarrow> error + unit" where
  "Categorical_validate_sample self value =
     validate_sample (Categorical_batch_shape self)
       (\<lambda>v. 0 \<le> v \<and> v \<le> int (num_events self) - 1) value"

text \<open>
  \<open>Categorical.enumerate_support\<close>: the host framework's method, then the tag when
  \<open>expand\<close> is false.
\<close>

definition Categorical_enumerate_support :: "Categorical \<Rightarrow> bool \<Rightarrow> error + Value" where
  "Categorical_enumerate_support self expand_arg =
     (let bs = Categorical_batch_shape self in
      err_bind (view (arange (num_events self)) (- 1 # replicate (length bs) 1)) (\<lambda>values.
      err_bind (if expand_arg then expand values (- 1 # map int bs) else Inr values) (\<lambda>result.
        Inr \<lparr>tensor = result,
             pyro_categorical_support = (if \<not> expand_arg then Some (obj_id self) else None)\<rparr>)))"

text \<open>The host framework's \<open>Categorical.log_prob\<close>, which gathers along the categories.\<close>

definition Categorical_log_prob_generic :: "Categorical \<Rightarrow> int tensor \<Rightarrow> error + real tensor" where
  "Categorical_log_prob_generic self value =
     err_bind (if Categorical.validate_args self then Categorical_validate_sample self value
               else Inr ()) (\<lambda>_.
     err_bind (broadcast_tensors (unsqueeze_last value) (Categorical.logits self)) (\<lambda>(v, log_pmf).
     err_bind (narrow_last1 v) (\<lambda>v1.
     err_bind (gather_last log_pmf v1) (\<lambda>g.
       Inr (squeeze_last g)))))"

text \<open>
  \<open>Categorical.log_prob\<close>; \<open>tracing\<close> says whether the host framework is tracing.
\<close>

definition Categorical_log_prob :: "Categorical \<Rightarrow> bool \<Rightarrow> Value \<Rightarrow> error + real tensor" where
  "Categorical_log_prob self tracing value =
     (if pyro_categorical_support value = Some (obj_id self) then
        (let v = tensor value in
         err_bind (if \<not> tracing then
                     err_bind (if Categorical.validate_args self
                               then Categorical_validate_sample self v else Inr ()) (\<lambda>_.
                     err_bind (tsize v 0) (\<lambda>a.
                     err_bind (tsize (Categorical.logits self) (- 1)) (\<lambda>b.
                       if a = b then Inr () else Inl AssertionError)))
                   else Inr ()) (\<lambda>_.
         err_bind (if dim (Categorical.logits self) \<le> dim v
                   then reshape (Categorical.logits self)
                          (replicate (1 + dim v - dim (Categorical.logits self)) 1
                             @ shape (Categorical.logits self))
                   else Inr (Categorical.logits self)) (\<lambda>lg.
         err_bind (if \<not> tracing then
                     err_bind (tsize lg (- 1 - int (dim v))) (\<lambda>s.
                       if s = 1 then Inr () else Inl AssertionError)
                   else Inr ()) (\<lambda>_.
         err_bind (transpose lg (- 1 - int (dim v)) (- 1)) (\<lambda>t.
           Inr (squeeze_last t))))))
      else Categorical_log_prob_generic self (tensor value))"

subsection \<open>Geometric\<close>

text \<open>\<open>logits\<close> is the attribute \<open>self.logits\<close>; the batch shape is its shape.\<close>

record Geometric =
  logits :: "real tensor"
  validate_args :: bool

text \<open>The support of a \<open>Geometric\<close> is the non-negative integers.\<close>

definition Geometric_validate_sample :: "Geometric \<Rightarrow> real tensor \<Rightarrow> error + unit" where
  "Geometric_validate_sample self value =
     validate_sample (shape (Geometric.logits self)) (\<lambda>v. is_integer v \<and> 0 \<le> v) value"

definition Geometric_log_prob :: "Geometric \<Rightarrow> real tensor \<Rightarrow> error + real tensor" where
  "Geometric_log_prob self value =
     err_bind (if Geometric.validate_args self then Geometric_validate_sample self value
               else Inr ()) (\<lambda>_.
     err_bind (binop (*) (tmap (\<lambda>v. - v - 1) value) (tmap softplus (Geometric.logits self))) (\<lambda>a.
       binop (+) a (Geometric.logits self)))"

section \<open>The formulas of the specification\<close>

text \<open>
  The log-normalizers as the specification writes them, on the parameters of one batch
  element: for a Beta \<open>lgamma(c1 + c0) - lgamma(c1) - lgamma(c0)\<close>, for a Gamma
  \<open>concentration * log(rate) - lgamma(concentration)\<close>, and for a Dirichlet with the
  concentrations \<open>cs\<close> along the last axis \<open>lgamma(sum(cs)) - sum(lgamma(cs))\<close>.
\<close>

definition spec_Beta_logNorm :: "real \<Rightarrow> real \<Rightarrow> real" where
  "spec_Beta_logNorm c1 c0 = lgamma (c1 + c0) - lgamma c1 - lgamma c0"

definition spec_Gamma_logNorm :: "real \<Rightarrow> real \<Rightarrow> real" where
  "spec_Gamma_logNorm k r = k * ln r - lgamma k"

definition spec_Dirichlet_logNorm :: "real list \<Rightarrow> real" where
  "spec_Dirichlet_logNorm cs = lgamma (sum_list cs) - sum_list (map lgamma cs)"

text \<open>The elements of a tensor along the last axis, at an index of the other axes.\<close>

definition row :: "'a tensor \<Rightarrow> nat list \<Rightarrow> 'a list" where
  "row t idx = map (\<lambda>j. tget t (idx @ [j])) [0..<last (shape t)]"

text \<open>The same for the index \<open>idx\<close> of a result to which the other axes were broadcast.\<close>

definition brow :: "'a tensor \<Rightarrow> nat list \<Rightarrow> 'a list" where
  "brow t idx = row t (bindex (butlast (shape t)) idx)"

section \<open>Well-formed instances\<close>

text \<open>
  What the constructors establish: every tensor has as many elements as its shape says,
  and the parameters of one instance were broadcast to one shape.
\<close>

definition Beta_wf :: "Beta \<Rightarrow> bool" where
  "Beta_wf d \<longleftrightarrow> wf_tensor (concentration1 d) \<and> wf_tensor (concentration0 d)
     \<and> shape (concentration0 d) = shape (concentration1 d)"

definition Gamma_wf :: "Gamma \<Rightarrow> bool" where
  "Gamma_wf d \<longleftrightarrow> wf_tensor (Gamma.concentration d) \<and> wf_tensor (rate d)
     \<and> shape (rate d) = shape (Gamma.concentration d)"

definition Dirichlet_wf :: "Dirichlet \<Rightarrow> bool" where
  "Dirichlet_wf d \<longleftrightarrow> wf_tensor (Dirichlet.concentration d) \<and> shape (Dirichlet.concentration d) \<noteq> []"

text \<open>
  For a Binomial: \<open>total_count\<close> and whichever of \<open>probs\<close> and \<open>logits\<close> is stored
  have the batch shape, at least one of the two is stored, and the threshold passed the
  assertions of the constructor: it is a finite number that is not negative, or
  infinity.
\<close>

definition param_wf :: "nat list \<Rightarrow> real tensor option \<Rightarrow> bool" where
  "param_wf bs p = (case p of None \<Rightarrow> True | Some t \<Rightarrow> wf_tensor t \<and> shape t = bs)"

definition thresh_wf :: "pyobj \<Rightarrow> bool" where
  "thresh_wf x = (case x of PyNum t \<Rightarrow> 0 \<le> t | PyInf \<Rightarrow> True | _ \<Rightarrow> False)"

definition Binomial_wf :: "Binomial \<Rightarrow> bool" where
  "Binomial_wf d \<longleftrightarrow> wf_tensor (total_count d)
     \<and> shape (total_count d) = Binomial.batch_shape d
     \<and> param_wf (Binomial.batch_shape d) (Binomial.probs d)
     \<and> param_wf (Binomial.batch_shape d) (Binomial.logits d)
     \<and> (Binomial.probs d \<noteq> None \<or> Binomial.logits d \<noteq> None)
     \<and> thresh_wf (approx_sample_thresh d)"

text \<open>
  The clamped-Poisson algorithm as the specification lists its steps, for one element
  with probability \<open>prob\<close>, count \<open>n\<close> and Poisson draw \<open>X\<close>.
\<close>

definition spec_clamped_poisson :: "real \<Rightarrow> real \<Rightarrow> nat \<Rightarrow> real" where
  "spec_clamped_poisson prob n X =
     (let p = min prob (1 - prob);
          q = 1 - p;
          mean = p * n;
          variance = p * q * n;
          shift = round_half_even (mean - variance);
          result = min (real X + shift) n
      in if prob < q then result else n - result)"

text \<open>A Python number that is negative: a finite negative number or \<open>-inf\<close>.\<close>

definition is_negative :: "pyobj \<Rightarrow> bool" where
  "is_negative x = (case x of PyNum t \<Rightarrow> t < 0 | PyNegInf \<Rightarrow> True | _ \<Rightarrow> False)"

text \<open>
  The parameter constraints of the three conjugate families: every concentration and
  every rate is positive.
\<close>

definition Beta_valid :: "Beta \<Rightarrow> bool" where
  "Beta_valid d \<longleftrightarrow> Beta_wf d \<and> tall (\<lambda>x. 0 < x) (concentration1 d)
     \<and> tall (\<lambda>x. 0 < x) (concentration0 d)"

definition Gamma_valid :: "Gamma \<Rightarrow> bool" where
  "Gamma_valid d \<longleftrightarrow> Gamma_wf d \<and> tall (\<lambda>x. 0 < x) (Gamma.concentration d)
     \<and> tall (\<lambda>x. 0 < x) (rate d)"

definition Dirichlet_valid :: "Dirichlet \<Rightarrow> bool" where
  "Dirichlet_valid d \<longleftrightarrow> Dirichlet_wf d \<and> tall (\<lambda>x. 0 < x) (Dirichlet.concentration d)"

text \<open>For a Uniform: both broadcast bounds have the batch shape.\<close>

definition Uniform_wf :: "Uniform \<Rightarrow> bool" where
  "Uniform_wf u \<longleftrightarrow> wf_tensor (low u) \<and> wf_tensor (high u)
     \<and> shape (low u) = Uniform.batch_shape u \<and> shape (high u) = Uniform.batch_shape u"

text \<open>
  The log-probability mass of the Geometric distribution with success probability \<open>p\<close>
  at \<open>k\<close> failures, as the specification's reference formula writes it.
\<close>

definition spec_Geometric_log_pmf :: "real \<Rightarrow> real \<Rightarrow> real" where
  "spec_Geometric_log_pmf p k = k * ln (1 - p) + ln p"

text \<open>
  For a Categorical: the logits have a last dimension, and it holds at least one
  category.
\<close>

definition Categorical_wf :: "Categorical \<Rightarrow> bool" where
  "Categorical_wf d \<longleftrightarrow> wf_tensor (Categorical.logits d) \<and> shape (Categorical.logits d) \<noteq> []
     \<and> 0 < num_events d"

text \<open>
  The log-probabilities of the whole support, laid out as \<open>enumerate_support\<close> lays out
  the categories: the element at category \<open>k\<close> and batch index \<open>i\<close> is the logit of
  category \<open>k\<close> in the batch element \<open>i\<close>.
\<close>

definition support_log_prob :: "Categorical \<Rightarrow> real tensor" where
  "support_log_prob d =
     tabulate (num_events d # Categorical_batch_shape d)
       (\<lambda>idx. tget (Categorical.logits d) (tl idx @ [hd idx]))"

section \<open>Proofs\<close>

subsection \<open>Facts about indices\<close>

lemma valid_index_Nil [simp]: "valid_index [] idx \<longleftrightarrow> idx = []"
  by (simp add: valid_index_def)

lemma valid_index_Cons:
  "valid_index (d # ds) idx \<longleftrightarrow> (\<exists>i is. idx = i # is \<and> i < d \<and> valid_index ds is)"
  by (cases idx) (simp_all add: valid_index_def)

lemma valid_index_Cons_Cons [simp]:
  "valid_index (d # ds) (i # is) \<longleftrightarrow> i < d \<and> valid_index ds is"
  by (simp add: valid_index_def)

lemma valid_index_length: "valid_index s idx \<Longrightarrow> length idx = length s"
  by (simp add: valid_index_def list_all2_lengthD)

lemma ravel_less: "valid_index s idx \<Longrightarrow> ravel s idx < prod_list s"
proof (induction s idx rule: ravel.induct)
  case (1 d ds i "is")
  then have i: "i < d" and r: "ravel ds is < prod_list ds" by simp_all
  have "i * prod_list ds + ravel ds is < i * prod_list ds + prod_list ds"
    using r by simp
  also have "\<dots> = Suc i * prod_list ds" by simp
  also have "\<dots> \<le> d * prod_list ds"
    using i by (intro mult_le_mono1) simp
  finally show ?case by simp
qed (simp_all add: valid_index_def)

lemma unravel_ravel: "valid_index s idx \<Longrightarrow> unravel s (ravel s idx) = idx"
proof (induction s idx rule: ravel.induct)
  case (1 d ds i "is")
  then have r: "ravel ds is < prod_list ds" and v: "valid_index ds is"
    by (simp_all add: ravel_less)
  from r have "(i * prod_list ds + ravel ds is) div prod_list ds = i"
    by simp
  moreover from r have "(i * prod_list ds + ravel ds is) mod prod_list ds = ravel ds is"
    by simp
  ultimately show ?case using 1 v by simp
qed (simp_all add: valid_index_def)

lemma valid_unravel: "n < prod_list s \<Longrightarrow> valid_index s (unravel s n)"
proof (induction s arbitrary: n)
  case Nil
  then show ?case by simp
next
  case (Cons d ds)
  then have pos: "0 < prod_list ds"
    by (cases "prod_list ds = 0") simp_all
  have "n div prod_list ds < d"
    using Cons.prems pos by (simp add: less_mult_imp_div_less)
  moreover have "n mod prod_list ds < prod_list ds"
    using pos by simp
  ultimately show ?case using Cons.IH by simp
qed

lemma ravel_unravel: "n < prod_list s \<Longrightarrow> ravel s (unravel s n) = n"
proof (induction s arbitrary: n)
  case Nil
  then show ?case by simp
next
  case (Cons d ds)
  then have "0 < prod_list ds"
    by (cases "prod_list ds = 0") simp_all
  then have "ravel ds (unravel ds (n mod prod_list ds)) = n mod prod_list ds"
    by (intro Cons.IH) simp
  then show ?case by simp
qed

lemma shape_tabulate [simp]: "shape (tabulate s f) = s"
  by (simp add: tabulate_def)

lemma wf_tabulate [simp]: "wf_tensor (tabulate s f)"
  by (simp add: tabulate_def wf_tensor_def)

lemma tget_tabulate: "valid_index s idx \<Longrightarrow> tget (tabulate s f) idx = f idx"
  by (simp add: tget_def tabulate_def ravel_less unravel_ravel)

lemma tabulate_cong:
  "(\<And>idx. valid_index s idx \<Longrightarrow> f idx = g idx) \<Longrightarrow> tabulate s f = tabulate s g"
  by (simp add: tabulate_def valid_unravel)

lemma tensor_eqI:
  assumes "wf_tensor a" "wf_tensor b" "shape a = shape b"
    and "\<And>idx. valid_index (shape a) idx \<Longrightarrow> tget a idx = tget b idx"
  shows "a = b"
proof -
  have "data a = data b"
  proof (rule nth_equalityI)
    show "length (data a) = length (data b)"
      using assms by (simp add: wf_tensor_def)
  next
    fix n assume "n < length (data a)"
    then have n: "n < prod_list (shape a)"
      using assms by (simp add: wf_tensor_def)
    then have "tget a (unravel (shape a) n) = tget b (unravel (shape a) n)"
      by (intro assms valid_unravel)
    then show "data a ! n = data b ! n"
      using n assms(3) by (simp add: tget_def ravel_unravel)
  qed
  then show ?thesis using assms(3) by (simp add: tensor.expand)
qed

lemma tabulate_tget: "wf_tensor t \<Longrightarrow> tabulate (shape t) (tget t) = t"
  by (rule tensor_eqI) (simp_all add: tget_tabulate)

lemma map2_bindex_less:
  "list_all2 (<) is xs \<Longrightarrow> list_all2 (<) (map2 bpos xs is) xs"
  by (induction "is" xs rule: list_all2_induct) (auto simp: bpos_def)

lemma map2_bindex_id:
  "list_all2 (<) is xs \<Longrightarrow> map2 bpos xs is = is"
  by (induction "is" xs rule: list_all2_induct) (auto simp: bpos_def)

lemma bindex_valid: "valid_index s idx \<Longrightarrow> bindex s idx = idx"
proof -
  assume "valid_index s idx"
  then have "list_all2 (<) (rev idx) (rev s)"
    by (simp add: valid_index_def)
  then show ?thesis
    by (simp add: bindex_def map2_bindex_id)
qed

lemma bget_valid: "valid_index (shape t) idx \<Longrightarrow> bget t idx = tget t idx"
  by (simp add: bget_def bindex_valid)


subsection \<open>Facts about broadcasting\<close>

lemma broadcast_rev_same [simp]: "broadcast_rev xs xs = Some xs"
  by (induction xs) simp_all

lemma broadcast_shapes_same [simp]: "broadcast_shapes s s = Some s"
  by (simp add: broadcast_shapes_def)

lemma broadcast_rev_Nil2 [simp]: "broadcast_rev xs [] = Some xs"
  by (cases xs) simp_all

lemma broadcast_rev_left:
  "broadcast_rev xs ys = Some zs \<Longrightarrow> list_all2 (<) is zs
     \<Longrightarrow> list_all2 (<) (map2 bpos xs is) xs"
proof (induction xs ys arbitrary: zs "is" rule: broadcast_rev.induct)
  case (1 ys)
  then show ?case by simp
next
  case (2 v va)
  then show ?case by (simp add: map2_bindex_less)
next
  case (3 x xs y ys)
  from "3.prems"(1) obtain z zs' where zs: "zs = z # zs'" and r: "broadcast_rev xs ys = Some zs'"
    and z: "x \<noteq> 1 \<longrightarrow> z = x"
    by (auto split: if_splits)
  from "3.prems"(2) zs obtain i is' where "is": "is = i # is'" and i: "i < z"
    and rest: "list_all2 (<) is' zs'"
    by (auto simp: list_all2_Cons2)
  have "list_all2 (<) (map2 bpos xs is') xs"
  proof (cases "x = y \<or> y = 1")
    case True
    show ?thesis using "3.IH"(1)[OF True r rest] .
  next
    case False
    with "3.prems"(1) have x1: "x = 1" by (auto split: if_splits)
    show ?thesis using "3.IH"(2)[OF False x1 r rest] .
  qed
  then show ?case using "is" i z by (auto simp: bpos_def)
qed

lemma broadcast_rev_right:
  "broadcast_rev xs ys = Some zs \<Longrightarrow> list_all2 (<) is zs
     \<Longrightarrow> list_all2 (<) (map2 bpos ys is) ys"
proof (induction xs ys arbitrary: zs "is" rule: broadcast_rev.induct)
  case (1 ys)
  then show ?case by (simp add: map2_bindex_less)
next
  case (2 v va)
  then show ?case by simp
next
  case (3 x xs y ys)
  from "3.prems"(1) obtain z zs' where zs: "zs = z # zs'" and r: "broadcast_rev xs ys = Some zs'"
    and z: "y \<noteq> 1 \<longrightarrow> z = y"
    by (auto split: if_splits)
  from "3.prems"(2) zs obtain i is' where "is": "is = i # is'" and i: "i < z"
    and rest: "list_all2 (<) is' zs'"
    by (auto simp: list_all2_Cons2)
  have "list_all2 (<) (map2 bpos ys is') ys"
  proof (cases "x = y \<or> y = 1")
    case True
    show ?thesis using "3.IH"(1)[OF True r rest] .
  next
    case False
    with "3.prems"(1) have x1: "x = 1" by (auto split: if_splits)
    show ?thesis using "3.IH"(2)[OF False x1 r rest] .
  qed
  then show ?case using "is" i z by (auto simp: bpos_def)
qed

lemma bindex_left:
  assumes "broadcast_shapes a b = Some s" "valid_index s idx"
  shows "valid_index a (bindex a idx)"
proof -
  from assms(1) obtain zs where r: "broadcast_rev (rev a) (rev b) = Some zs" and s: "s = rev zs"
    by (auto simp: broadcast_shapes_def)
  from assms(2) s have "list_all2 (<) (rev idx) zs"
    by (simp add: valid_index_def list_all2_rev1)
  from broadcast_rev_left[OF r this] show ?thesis
    by (simp add: valid_index_def bindex_def list_all2_rev1)
qed

lemma bindex_right:
  assumes "broadcast_shapes a b = Some s" "valid_index s idx"
  shows "valid_index b (bindex b idx)"
proof -
  from assms(1) obtain zs where r: "broadcast_rev (rev a) (rev b) = Some zs" and s: "s = rev zs"
    by (auto simp: broadcast_shapes_def)
  from assms(2) s have "list_all2 (<) (rev idx) zs"
    by (simp add: valid_index_def list_all2_rev1)
  from broadcast_rev_right[OF r this] show ?thesis
    by (simp add: valid_index_def bindex_def list_all2_rev1)
qed

lemma binop_Inr:
  "broadcast_shapes (shape a) (shape b) = Some s
     \<Longrightarrow> binop f a b = Inr (tabulate s (\<lambda>idx. f (bget a idx) (bget b idx)))"
  by (simp add: binop_def)

lemma bget_tabulate:
  "valid_index s (bindex s idx) \<Longrightarrow> bget (tabulate s f) idx = f (bindex s idx)"
  by (simp add: bget_def tget_tabulate)

lemma shape_tmap [simp]: "shape (tmap f t) = shape t"
  by (simp add: tmap_def)

lemma wf_tmap [simp]: "wf_tensor (tmap f t) \<longleftrightarrow> wf_tensor t"
  by (simp add: tmap_def wf_tensor_def)

lemma tget_tmap:
  "wf_tensor t \<Longrightarrow> valid_index (shape t) idx \<Longrightarrow> tget (tmap f t) idx = f (tget t idx)"
  using ravel_less[of "shape t" idx] by (simp add: tget_def tmap_def wf_tensor_def)

lemma bget_tmap:
  "wf_tensor t \<Longrightarrow> valid_index (shape t) (bindex (shape t) idx)
     \<Longrightarrow> bget (tmap f t) idx = f (bget t idx)"
  by (simp add: bget_def tget_tmap)

lemma tmap_tabulate: "tmap f (tabulate s g) = tabulate s (\<lambda>idx. f (g idx))"
  by (simp add: tmap_def tabulate_def)

lemma err_bind_Inr [simp]: "err_bind (Inr x) f = f x"
  by (simp add: err_bind_def)

lemma err_bind_Inl [simp]: "err_bind (Inl e) f = Inl e"
  by (simp add: err_bind_def)


subsection \<open>Elementwise operations on tensors of one shape\<close>

lemma binop_same_shape:
  "shape a = s \<Longrightarrow> shape b = s
     \<Longrightarrow> binop f a b = Inr (tabulate s (\<lambda>idx. f (tget a idx) (tget b idx)))"
proof -
  assume a: "shape a = s" and b: "shape b = s"
  have "tabulate s (\<lambda>idx. f (bget a idx) (bget b idx)) = tabulate s (\<lambda>idx. f (tget a idx) (tget b idx))"
    by (rule tabulate_cong) (simp add: a b bget_valid)
  then show ?thesis using a b by (simp add: binop_def)
qed

lemma binop_tabulate_same:
  "binop f (tabulate s g) (tabulate s h) = Inr (tabulate s (\<lambda>idx. f (g idx) (h idx)))"
proof -
  have "tabulate s (\<lambda>idx. f (tget (tabulate s g) idx) (tget (tabulate s h) idx))
          = tabulate s (\<lambda>idx. f (g idx) (h idx))"
    by (rule tabulate_cong) (simp add: tget_tabulate)
  then show ?thesis by (simp add: binop_same_shape[where s = s])
qed

lemma tmap_eq_tabulate: "wf_tensor t \<Longrightarrow> tmap f t = tabulate (shape t) (\<lambda>idx. f (tget t idx))"
  by (rule tensor_eqI) (simp_all add: tget_tmap tget_tabulate)

lemma tabulate_bget_tabulate: "tabulate s (bget (tabulate s g)) = tabulate s g"
  by (rule tabulate_cong) (simp add: bget_valid tget_tabulate)

lemma broadcast_tensors_tabulate_same:
  "broadcast_tensors (tabulate s g) (tabulate s h) = Inr (tabulate s g, tabulate s h)"
  by (simp add: broadcast_tensors_def tabulate_bget_tabulate)

lemma tall_tabulate: "tall P (tabulate s f) \<longleftrightarrow> (\<forall>idx. valid_index s idx \<longrightarrow> P (f idx))"
proof
  assume "tall P (tabulate s f)"
  then have all: "\<And>n. n < prod_list s \<Longrightarrow> P (f (unravel s n))"
    by (simp add: tall_def tabulate_def list_all_iff)
  show "\<forall>idx. valid_index s idx \<longrightarrow> P (f idx)"
  proof (intro allI impI)
    fix idx assume v: "valid_index s idx"
    then have "P (f (unravel s (ravel s idx)))" by (intro all ravel_less)
    then show "P (f idx)" using v by (simp add: unravel_ravel)
  qed
next
  assume "\<forall>idx. valid_index s idx \<longrightarrow> P (f idx)"
  then show "tall P (tabulate s f)"
    by (simp add: tall_def tabulate_def list_all_iff valid_unravel)
qed

subsection \<open>Beta\<close>

lemma Beta_log_normalizer_eq:
  assumes "Beta_wf d"
  shows "Beta_log_normalizer d =
           Inr (tabulate (shape (concentration1 d))
                  (\<lambda>idx. spec_Beta_logNorm (tget (concentration1 d) idx) (tget (concentration0 d) idx)))"
proof -
  let ?x = "concentration1 d" and ?y = "concentration0 d"
  let ?s = "shape ?x"
  from assms have wx: "wf_tensor ?x" and wy: "wf_tensor ?y" and sy: "shape ?y = ?s"
    by (simp_all add: Beta_wf_def)
  have xy: "binop (+) ?x ?y = Inr (tabulate ?s (\<lambda>idx. tget ?x idx + tget ?y idx))"
    using sy by (simp add: binop_same_shape)
  have lx: "tmap lgamma ?x = tabulate ?s (\<lambda>idx. lgamma (tget ?x idx))"
    using wx by (rule tmap_eq_tabulate)
  have ly: "tmap lgamma ?y = tabulate ?s (\<lambda>idx. lgamma (tget ?y idx))"
    using wy sy tmap_eq_tabulate[of ?y lgamma] by simp
  show ?thesis
    unfolding Beta_log_normalizer_def Let_def xy err_bind_Inr tmap_tabulate lx ly
      binop_tabulate_same spec_Beta_logNorm_def ..
qed

lemma Beta_init_tabulate:
  "Beta_init validate (tabulate s g) (tabulate s h) =
     (if validate \<and> \<not> ((\<forall>idx. valid_index s idx \<longrightarrow> 0 < g idx) \<and> (\<forall>idx. valid_index s idx \<longrightarrow> 0 < h idx))
      then Inl ValueError
      else Inr \<lparr>concentration1 = tabulate s g, concentration0 = tabulate s h\<rparr>)"
  by (auto simp: Beta_init_def broadcast_tensors_tabulate_same tall_tabulate)

lemma Beta_init_wf: "Beta_init validate c1 c0 = Inr d \<Longrightarrow> Beta_wf d"
  by (auto simp: Beta_init_def broadcast_tensors_def Beta_wf_def err_bind_def
      split: option.splits if_splits)


lemma Beta_conjugate_update_eq:
  assumes "Beta_wf prior" and "Beta_wf likelihood"
    and "broadcast_shapes (shape (concentration1 prior)) (shape (concentration1 likelihood)) = Some s"
    and "validate \<longrightarrow> (\<forall>idx. valid_index s idx \<longrightarrow>
           1 < bget (concentration1 prior) idx + bget (concentration1 likelihood) idx \<and>
           1 < bget (concentration0 prior) idx + bget (concentration0 likelihood) idx)"
  shows "Beta_conjugate_update validate prior (BetaD likelihood) =
    Inr (\<lparr>concentration1 = tabulate s (\<lambda>idx.
             bget (concentration1 prior) idx + bget (concentration1 likelihood) idx - 1),
          concentration0 = tabulate s (\<lambda>idx.
             bget (concentration0 prior) idx + bget (concentration0 likelihood) idx - 1)\<rparr>,
         tabulate s (\<lambda>idx.
             spec_Beta_logNorm (bget (concentration1 prior) idx) (bget (concentration0 prior) idx)
           + spec_Beta_logNorm (bget (concentration1 likelihood) idx)
               (bget (concentration0 likelihood) idx)
           - spec_Beta_logNorm
               (bget (concentration1 prior) idx + bget (concentration1 likelihood) idx - 1)
               (bget (concentration0 prior) idx + bget (concentration0 likelihood) idx - 1)))"
proof -
  let ?a1 = "concentration1 prior" and ?a0 = "concentration0 prior"
  let ?b1 = "concentration1 likelihood" and ?b0 = "concentration0 likelihood"
  let ?sa = "shape ?a1" and ?sb = "shape ?b1"
  let ?c1 = "\<lambda>idx. bget ?a1 idx + bget ?b1 idx - 1"
  let ?c0 = "\<lambda>idx. bget ?a0 idx + bget ?b0 idx - 1"
  let ?updated = "\<lparr>concentration1 = tabulate s ?c1, concentration0 = tabulate s ?c0\<rparr>"
  let ?na = "\<lambda>idx. spec_Beta_logNorm (tget ?a1 idx) (tget ?a0 idx)"
  let ?nb = "\<lambda>idx. spec_Beta_logNorm (tget ?b1 idx) (tget ?b0 idx)"
  from assms(1) have sa0: "shape ?a0 = ?sa" by (simp add: Beta_wf_def)
  from assms(2) have sb0: "shape ?b0 = ?sb" by (simp add: Beta_wf_def)
  have bs0: "broadcast_shapes (shape ?a0) (shape ?b0) = Some s"
    using assms(3) sa0 sb0 by simp
  have s1: "binop (+) ?a1 ?b1 = Inr (tabulate s (\<lambda>idx. bget ?a1 idx + bget ?b1 idx))"
    using assms(3) by (rule binop_Inr)
  have s0: "binop (+) ?a0 ?b0 = Inr (tabulate s (\<lambda>idx. bget ?a0 idx + bget ?b0 idx))"
    using bs0 by (rule binop_Inr)
  have pos: "\<not> (validate \<and> \<not> ((\<forall>idx. valid_index s idx \<longrightarrow> 0 < ?c1 idx)
                \<and> (\<forall>idx. valid_index s idx \<longrightarrow> 0 < ?c0 idx)))"
    using assms(4) by auto
  have init: "Beta_init validate (tabulate s ?c1) (tabulate s ?c0) = Inr ?updated"
    unfolding Beta_init_tabulate using pos by (rule if_not_P)
  have n1: "Beta_log_normalizer prior = Inr (tabulate ?sa ?na)"
    using assms(1) by (rule Beta_log_normalizer_eq)
  have n2: "Beta_log_normalizer likelihood = Inr (tabulate ?sb ?nb)"
    using assms(2) by (rule Beta_log_normalizer_eq)
  have "Beta_wf ?updated" by (simp add: Beta_wf_def)
  then have "Beta_log_normalizer ?updated =
      Inr (tabulate s (\<lambda>idx. spec_Beta_logNorm (tget (tabulate s ?c1) idx) (tget (tabulate s ?c0) idx)))"
    using Beta_log_normalizer_eq[of ?updated] by simp
  also have "tabulate s (\<lambda>idx. spec_Beta_logNorm (tget (tabulate s ?c1) idx) (tget (tabulate s ?c0) idx))
      = tabulate s (\<lambda>idx. spec_Beta_logNorm (?c1 idx) (?c0 idx))"
    by (rule tabulate_cong) (simp add: tget_tabulate)
  finally have n3: "Beta_log_normalizer ?updated =
      Inr (tabulate s (\<lambda>idx. spec_Beta_logNorm (?c1 idx) (?c0 idx)))" .
  have "binop (+) (tabulate ?sa ?na) (tabulate ?sb ?nb) =
      Inr (tabulate s (\<lambda>idx. bget (tabulate ?sa ?na) idx + bget (tabulate ?sb ?nb) idx))"
    using assms(3) by (simp add: binop_Inr)
  also have "tabulate s (\<lambda>idx. bget (tabulate ?sa ?na) idx + bget (tabulate ?sb ?nb) idx) =
      tabulate s (\<lambda>idx. spec_Beta_logNorm (bget ?a1 idx) (bget ?a0 idx)
                      + spec_Beta_logNorm (bget ?b1 idx) (bget ?b0 idx))"
  proof (rule tabulate_cong)
    fix idx assume v: "valid_index s idx"
    have va: "valid_index ?sa (bindex ?sa idx)" using assms(3) v by (rule bindex_left)
    have vb: "valid_index ?sb (bindex ?sb idx)" using assms(3) v by (rule bindex_right)
    show "bget (tabulate ?sa ?na) idx + bget (tabulate ?sb ?nb) idx =
        spec_Beta_logNorm (bget ?a1 idx) (bget ?a0 idx)
          + spec_Beta_logNorm (bget ?b1 idx) (bget ?b0 idx)"
      using va vb by (simp add: tget_tabulate bget_def sa0 sb0)
  qed
  finally have n12: "binop (+) (tabulate ?sa ?na) (tabulate ?sb ?nb) =
      Inr (tabulate s (\<lambda>idx. spec_Beta_logNorm (bget ?a1 idx) (bget ?a0 idx)
                      + spec_Beta_logNorm (bget ?b1 idx) (bget ?b0 idx)))" .
  show ?thesis
    unfolding Beta_conjugate_update_def dist.case s1 s0 err_bind_Inr Let_def tmap_tabulate
      init n1 n2 n12 n3 binop_tabulate_same ..
qed

text \<open>
  C1 (as amended). For two well-formed Beta distributions whose batch shapes broadcast to
  \<open>s\<close>, and, when validation is on, whose concentrations sum to more than 1 in every
  element, \<open>conjugate_update\<close> returns a Beta with concentration1 the sum of the two
  concentration1 minus 1 and concentration0 the sum of the two concentration0 minus 1,
  element by element over \<open>s\<close>, and the log-normalizer logNorm(prior) +
  logNorm(likelihood) - logNorm(posterior) with logNorm(d) = lgamma(c1 + c0) - lgamma(c1)
  - lgamma(c0).
\<close>

theorem Beta_conjugate_update_posterior:
  assumes "Beta_wf prior" and "Beta_wf likelihood"
    and "broadcast_shapes (shape (concentration1 prior)) (shape (concentration1 likelihood)) = Some s"
    and "validate \<longrightarrow> (\<forall>idx. valid_index s idx \<longrightarrow>
           1 < bget (concentration1 prior) idx + bget (concentration1 likelihood) idx \<and>
           1 < bget (concentration0 prior) idx + bget (concentration0 likelihood) idx)"
  shows "Beta_conjugate_update validate prior (BetaD likelihood) =
    Inr (\<lparr>concentration1 = tabulate s (\<lambda>idx.
             bget (concentration1 prior) idx + bget (concentration1 likelihood) idx - 1),
          concentration0 = tabulate s (\<lambda>idx.
             bget (concentration0 prior) idx + bget (concentration0 likelihood) idx - 1)\<rparr>,
         tabulate s (\<lambda>idx.
             spec_Beta_logNorm (bget (concentration1 prior) idx) (bget (concentration0 prior) idx)
           + spec_Beta_logNorm (bget (concentration1 likelihood) idx)
               (bget (concentration0 likelihood) idx)
           - spec_Beta_logNorm
               (bget (concentration1 prior) idx + bget (concentration1 likelihood) idx - 1)
               (bget (concentration0 prior) idx + bget (concentration0 likelihood) idx - 1)))"
  using assms by (rule Beta_conjugate_update_eq)


subsection \<open>Evaluation on small shapes\<close>

lemma tabulate_Nil: "tabulate [] f = Tensor [] [f []]"
  by (simp add: tabulate_def)

lemma tabulate_single: "tabulate [n] f = Tensor [n] (map (\<lambda>i. f [i]) [0..<n])"
  by (simp add: tabulate_def)

lemma upt_0_2: "[0..<2] = [0, Suc 0]"
  by (simp add: numeral_2_eq_2)

lemma valid_index_single: "valid_index [n] idx \<longleftrightarrow> (\<exists>i. i < n \<and> idx = [i])"
  by (auto simp: valid_index_Cons)

lemma valid_index_2: "valid_index [2] idx \<longleftrightarrow> idx = [0] \<or> idx = [Suc 0]"
  by (auto simp: valid_index_single less_Suc_eq numeral_2_eq_2)

lemma bget_Nil: "bget (Tensor [] [x]) idx = x"
  by (simp add: bget_def bindex_def tget_def)

lemma bget_single: "n \<noteq> 1 \<Longrightarrow> bget (Tensor [n] xs) [i] = xs ! i"
  by (simp add: bget_def bindex_def bpos_def tget_def)

text \<open>
  C1, the claim as stated fails: two Beta distributions whose batch shapes do not
  broadcast make \<open>conjugate_update\<close> raise at the first sum; and with validation on, two
  Beta distributions with concentration1 = 1/2 make the constructor of the posterior
  raise, its concentration1 being 0.
\<close>

theorem Beta_conjugate_update_counterexample:
  "Beta_conjugate_update False
      \<lparr>concentration1 = Tensor [2] [1, 1], concentration0 = Tensor [2] [1, 1]\<rparr>
      (BetaD \<lparr>concentration1 = Tensor [3] [1, 1, 1], concentration0 = Tensor [3] [1, 1, 1]\<rparr>)
     = Inl RuntimeError
   \<and> Beta_conjugate_update True
      \<lparr>concentration1 = Tensor [] [1 / 2], concentration0 = Tensor [] [1]\<rparr>
      (BetaD \<lparr>concentration1 = Tensor [] [1 / 2], concentration0 = Tensor [] [1]\<rparr>)
     = Inl ValueError"
proof
  show "Beta_conjugate_update False
      \<lparr>concentration1 = Tensor [2] [1, 1], concentration0 = Tensor [2] [1, 1]\<rparr>
      (BetaD \<lparr>concentration1 = Tensor [3] [1, 1, 1], concentration0 = Tensor [3] [1, 1, 1]\<rparr>)
     = Inl RuntimeError"
    by (simp add: Beta_conjugate_update_def binop_def broadcast_shapes_def)
next
  show "Beta_conjugate_update True
      \<lparr>concentration1 = Tensor [] [1 / 2], concentration0 = Tensor [] [1]\<rparr>
      (BetaD \<lparr>concentration1 = Tensor [] [1 / 2], concentration0 = Tensor [] [1]\<rparr>)
     = Inl ValueError"
    by (simp add: Beta_conjugate_update_def binop_def broadcast_shapes_def tabulate_Nil
        tmap_def Beta_init_def broadcast_tensors_def bget_Nil tall_def)
qed

theorem Beta_conjugate_update_posterior_witness:
  "Beta_wf \<lparr>concentration1 = Tensor [2] [2, 3], concentration0 = Tensor [2] [1, 4]\<rparr>
   \<and> Beta_wf \<lparr>concentration1 = Tensor [] [2], concentration0 = Tensor [] [3]\<rparr>
   \<and> broadcast_shapes [2] [] = Some [2]
   \<and> Beta_conjugate_update True
        \<lparr>concentration1 = Tensor [2] [2, 3], concentration0 = Tensor [2] [1, 4]\<rparr>
        (BetaD \<lparr>concentration1 = Tensor [] [2], concentration0 = Tensor [] [3]\<rparr>)
      = Inr (\<lparr>concentration1 = Tensor [2] [3, 4], concentration0 = Tensor [2] [3, 6]\<rparr>,
             Tensor [2]
               [spec_Beta_logNorm 2 1 + spec_Beta_logNorm 2 3 - spec_Beta_logNorm 3 3,
                spec_Beta_logNorm 3 4 + spec_Beta_logNorm 2 3 - spec_Beta_logNorm 4 6])"
proof -
  let ?p = "\<lparr>concentration1 = Tensor [2] [2, 3], concentration0 = Tensor [2] [1, 4 :: real]\<rparr>"
  let ?l = "\<lparr>concentration1 = Tensor [] [2], concentration0 = Tensor [] [3 :: real]\<rparr>"
  have wp: "Beta_wf ?p" by (simp add: Beta_wf_def wf_tensor_def)
  have wl: "Beta_wf ?l" by (simp add: Beta_wf_def wf_tensor_def)
  have bs: "broadcast_shapes (shape (concentration1 ?p)) (shape (concentration1 ?l)) = Some [2]"
    by (simp add: broadcast_shapes_def)
  have pos: "True \<longrightarrow> (\<forall>idx. valid_index [2] idx \<longrightarrow>
           1 < bget (concentration1 ?p) idx + bget (concentration1 ?l) idx \<and>
           1 < bget (concentration0 ?p) idx + bget (concentration0 ?l) idx)"
    by (auto simp: valid_index_2 bget_Nil bget_single)
  show ?thesis
    using Beta_conjugate_update_posterior[OF wp wl bs pos] wp wl
    by (simp add: broadcast_shapes_def tabulate_single upt_0_2 bget_Nil bget_single)
qed


subsection \<open>Gamma\<close>

lemma Gamma_log_normalizer_eq:
  assumes "Gamma_wf d"
  shows "Gamma_log_normalizer d =
           Inr (tabulate (shape (Gamma.concentration d))
                  (\<lambda>idx. spec_Gamma_logNorm (tget (Gamma.concentration d) idx) (tget (rate d) idx)))"
proof -
  let ?c = "Gamma.concentration d" and ?r = "rate d"
  let ?s = "shape ?c"
  from assms have wc: "wf_tensor ?c" and wr: "wf_tensor ?r" and sr: "shape ?r = ?s"
    by (simp_all add: Gamma_wf_def)
  have lr: "tmap ln ?r = tabulate ?s (\<lambda>idx. ln (tget ?r idx))"
    using wr sr tmap_eq_tabulate[of ?r ln] by simp
  have lc: "tmap lgamma ?c = tabulate ?s (\<lambda>idx. lgamma (tget ?c idx))"
    using wc by (rule tmap_eq_tabulate)
  have "binop (*) (tabulate ?s (\<lambda>idx. ln (tget ?r idx))) ?c =
      Inr (tabulate ?s (\<lambda>idx. tget (tabulate ?s (\<lambda>idx. ln (tget ?r idx))) idx * tget ?c idx))"
    by (simp add: binop_same_shape)
  also have "tabulate ?s (\<lambda>idx. tget (tabulate ?s (\<lambda>idx. ln (tget ?r idx))) idx * tget ?c idx)
      = tabulate ?s (\<lambda>idx. tget ?c idx * ln (tget ?r idx))"
    by (rule tabulate_cong) (simp add: tget_tabulate)
  finally have m: "binop (*) (tabulate ?s (\<lambda>idx. ln (tget ?r idx))) ?c =
      Inr (tabulate ?s (\<lambda>idx. tget ?c idx * ln (tget ?r idx)))" .
  show ?thesis
    unfolding Gamma_log_normalizer_def Let_def lr m err_bind_Inr lc binop_tabulate_same
      spec_Gamma_logNorm_def ..
qed

lemma Gamma_init_tabulate:
  "Gamma_init validate (tabulate s g) (tabulate s h) =
     (if validate \<and> \<not> ((\<forall>idx. valid_index s idx \<longrightarrow> 0 < g idx) \<and> (\<forall>idx. valid_index s idx \<longrightarrow> 0 < h idx))
      then Inl ValueError
      else Inr \<lparr>Gamma.concentration = tabulate s g, rate = tabulate s h\<rparr>)"
  by (auto simp: Gamma_init_def broadcast_tensors_tabulate_same tall_tabulate)

lemma Gamma_init_wf: "Gamma_init validate c r = Inr d \<Longrightarrow> Gamma_wf d"
  by (auto simp: Gamma_init_def broadcast_tensors_def Gamma_wf_def err_bind_def
      split: option.splits if_splits)

lemma Gamma_conjugate_update_eq:
  assumes "Gamma_wf prior" and "Gamma_wf likelihood"
    and "shape (Gamma.concentration likelihood) = shape (Gamma.concentration prior)"
    and "validate \<longrightarrow> (\<forall>idx. valid_index (shape (Gamma.concentration prior)) idx \<longrightarrow>
           1 < tget (Gamma.concentration prior) idx + tget (Gamma.concentration likelihood) idx \<and>
           0 < tget (rate prior) idx + tget (rate likelihood) idx)"
  shows "Gamma_conjugate_update validate prior (GammaD likelihood) =
    Inr (\<lparr>Gamma.concentration = tabulate (shape (Gamma.concentration prior)) (\<lambda>idx.
             tget (Gamma.concentration prior) idx + tget (Gamma.concentration likelihood) idx - 1),
          rate = tabulate (shape (Gamma.concentration prior)) (\<lambda>idx.
             tget (rate prior) idx + tget (rate likelihood) idx)\<rparr>,
         tabulate (shape (Gamma.concentration prior)) (\<lambda>idx.
             spec_Gamma_logNorm (tget (Gamma.concentration prior) idx) (tget (rate prior) idx)
           + spec_Gamma_logNorm (tget (Gamma.concentration likelihood) idx)
               (tget (rate likelihood) idx)
           - spec_Gamma_logNorm
               (tget (Gamma.concentration prior) idx + tget (Gamma.concentration likelihood) idx - 1)
               (tget (rate prior) idx + tget (rate likelihood) idx)))"
proof -
  let ?a = "Gamma.concentration prior" and ?ar = "rate prior"
  let ?b = "Gamma.concentration likelihood" and ?br = "rate likelihood"
  let ?s = "shape ?a"
  let ?c = "\<lambda>idx. tget ?a idx + tget ?b idx - 1"
  let ?r = "\<lambda>idx. tget ?ar idx + tget ?br idx"
  let ?updated = "\<lparr>Gamma.concentration = tabulate ?s ?c, rate = tabulate ?s ?r\<rparr>"
  let ?na = "\<lambda>idx. spec_Gamma_logNorm (tget ?a idx) (tget ?ar idx)"
  let ?nb = "\<lambda>idx. spec_Gamma_logNorm (tget ?b idx) (tget ?br idx)"
  from assms(1) have sar: "shape ?ar = ?s" by (simp add: Gamma_wf_def)
  from assms(2,3) have sbr: "shape ?br = ?s" by (simp add: Gamma_wf_def)
  have sc: "binop (+) ?a ?b = Inr (tabulate ?s (\<lambda>idx. tget ?a idx + tget ?b idx))"
    using assms(3) by (simp add: binop_same_shape)
  have sr: "binop (+) ?ar ?br = Inr (tabulate ?s ?r)"
    using sar sbr by (simp add: binop_same_shape)
  have pos: "\<not> (validate \<and> \<not> ((\<forall>idx. valid_index ?s idx \<longrightarrow> 0 < ?c idx)
                \<and> (\<forall>idx. valid_index ?s idx \<longrightarrow> 0 < ?r idx)))"
    using assms(4) by auto
  have init: "Gamma_init validate (tabulate ?s ?c) (tabulate ?s ?r) = Inr ?updated"
    unfolding Gamma_init_tabulate using pos by (rule if_not_P)
  have n1: "Gamma_log_normalizer prior = Inr (tabulate ?s ?na)"
    using assms(1) by (rule Gamma_log_normalizer_eq)
  have n2: "Gamma_log_normalizer likelihood = Inr (tabulate ?s ?nb)"
    using Gamma_log_normalizer_eq[OF assms(2)] assms(3) by simp
  have "Gamma_wf ?updated" by (simp add: Gamma_wf_def)
  then have "Gamma_log_normalizer ?updated =
      Inr (tabulate ?s (\<lambda>idx. spec_Gamma_logNorm (tget (tabulate ?s ?c) idx) (tget (tabulate ?s ?r) idx)))"
    using Gamma_log_normalizer_eq[of ?updated] by simp
  also have "tabulate ?s (\<lambda>idx. spec_Gamma_logNorm (tget (tabulate ?s ?c) idx) (tget (tabulate ?s ?r) idx))
      = tabulate ?s (\<lambda>idx. spec_Gamma_logNorm (?c idx) (?r idx))"
    by (rule tabulate_cong) (simp add: tget_tabulate)
  finally have n3: "Gamma_log_normalizer ?updated =
      Inr (tabulate ?s (\<lambda>idx. spec_Gamma_logNorm (?c idx) (?r idx)))" .
  show ?thesis
    unfolding Gamma_conjugate_update_def dist.case sc sr err_bind_Inr Let_def tmap_tabulate
      init n1 n2 n3 binop_tabulate_same ..
qed


subsection \<open>Dirichlet\<close>

lemma valid_index_snoc:
  "s \<noteq> [] \<Longrightarrow> valid_index (butlast s) idx \<Longrightarrow> j < last s \<Longrightarrow> valid_index s (idx @ [j])"
proof -
  assume s: "s \<noteq> []" and v: "valid_index (butlast s) idx" and j: "j < last s"
  have "list_all2 (<) (idx @ [j]) (butlast s @ [last s])"
    using v j by (intro list_all2_appendI) (simp_all add: valid_index_def)
  then show ?thesis using s by (simp add: valid_index_def)
qed

lemma sum_last_eq:
  "shape t \<noteq> [] \<Longrightarrow> sum_last t = tabulate (butlast (shape t)) (\<lambda>idx. sum_list (row t idx))"
  by (simp add: sum_last_def row_def)

lemma row_tmap:
  assumes "wf_tensor t" "shape t \<noteq> []" "valid_index (butlast (shape t)) idx"
  shows "row (tmap f t) idx = map f (row t idx)"
proof -
  have "tget (tmap f t) (idx @ [j]) = f (tget t (idx @ [j]))" if "j < last (shape t)" for j
    using assms that by (intro tget_tmap valid_index_snoc)
  then show ?thesis by (simp add: row_def)
qed

lemma Dirichlet_log_normalizer_eq:
  assumes "Dirichlet_wf d"
  shows "Dirichlet_log_normalizer d =
           Inr (tabulate (butlast (shape (Dirichlet.concentration d)))
                  (\<lambda>idx. spec_Dirichlet_logNorm (row (Dirichlet.concentration d) idx)))"
proof -
  let ?c = "Dirichlet.concentration d"
  let ?bs = "butlast (shape ?c)"
  from assms have w: "wf_tensor ?c" and ne: "shape ?c \<noteq> []"
    by (simp_all add: Dirichlet_wf_def)
  have s1: "sum_last ?c = tabulate ?bs (\<lambda>idx. sum_list (row ?c idx))"
    using ne by (rule sum_last_eq)
  have "sum_last (tmap lgamma ?c) = tabulate ?bs (\<lambda>idx. sum_list (row (tmap lgamma ?c) idx))"
    using ne sum_last_eq[of "tmap lgamma ?c"] by simp
  also have "\<dots> = tabulate ?bs (\<lambda>idx. sum_list (map lgamma (row ?c idx)))"
    by (rule tabulate_cong) (simp add: row_tmap[OF w ne])
  finally have s2: "sum_last (tmap lgamma ?c) =
      tabulate ?bs (\<lambda>idx. sum_list (map lgamma (row ?c idx)))" .
  show ?thesis
    unfolding Dirichlet_log_normalizer_def Let_def s1 s2 tmap_tabulate binop_tabulate_same
      spec_Dirichlet_logNorm_def ..
qed

lemma broadcast_rev_Cons:
  "broadcast_rev (x # xs) (y # ys) = Some zs
     \<Longrightarrow> \<exists>z zs'. zs = z # zs' \<and> broadcast_rev xs ys = Some zs'"
  by (auto split: if_splits)

lemma broadcast_shapes_butlast:
  assumes "broadcast_shapes a b = Some s" "a \<noteq> []" "b \<noteq> []"
  shows "broadcast_shapes (butlast a) (butlast b) = Some (butlast s) \<and> s \<noteq> []"
proof -
  from assms(2) obtain x xs where a: "rev a = x # xs" by (cases "rev a") simp_all
  from assms(3) obtain y ys where b: "rev b = y # ys" by (cases "rev b") simp_all
  from assms(1) obtain zs where r: "broadcast_rev (rev a) (rev b) = Some zs" and s: "s = rev zs"
    by (auto simp: broadcast_shapes_def)
  from r a b obtain z zs' where zs: "zs = z # zs'" and r': "broadcast_rev xs ys = Some zs'"
    using broadcast_rev_Cons[of x xs y ys zs] by auto
  have "rev (butlast a) = xs" "rev (butlast b) = ys"
    using a b by (simp_all add: butlast_rev[symmetric] rev_swap)
  then show ?thesis using r' s zs by (simp add: broadcast_shapes_def)
qed

lemma Dirichlet_init_tabulate:
  "s \<noteq> [] \<Longrightarrow> Dirichlet_init validate (tabulate s g) =
     (if validate \<and> \<not> (\<forall>idx. valid_index s idx \<longrightarrow> 0 < g idx) then Inl ValueError
      else Inr \<lparr>Dirichlet.concentration = tabulate s g\<rparr>)"
  by (cases s) (auto simp: Dirichlet_init_def dim_def tall_tabulate)

lemma Dirichlet_init_wf:
  "wf_tensor c \<Longrightarrow> Dirichlet_init validate c = Inr d \<Longrightarrow> Dirichlet_wf d"
  by (cases "shape c") (auto simp: Dirichlet_init_def Dirichlet_wf_def dim_def split: if_splits)

lemma Dirichlet_conjugate_update_eq:
  assumes "Dirichlet_wf prior" and "Dirichlet_wf likelihood"
    and "broadcast_shapes (shape (Dirichlet.concentration prior))
           (shape (Dirichlet.concentration likelihood)) = Some s"
    and "validate \<longrightarrow> (\<forall>idx. valid_index s idx \<longrightarrow>
           1 < bget (Dirichlet.concentration prior) idx
                 + bget (Dirichlet.concentration likelihood) idx)"
  shows "Dirichlet_conjugate_update validate prior (DirichletD likelihood) =
    Inr (\<lparr>Dirichlet.concentration = tabulate s (\<lambda>idx.
             bget (Dirichlet.concentration prior) idx
               + bget (Dirichlet.concentration likelihood) idx - 1)\<rparr>,
         tabulate (butlast s) (\<lambda>idx.
             spec_Dirichlet_logNorm (brow (Dirichlet.concentration prior) idx)
           + spec_Dirichlet_logNorm (brow (Dirichlet.concentration likelihood) idx)
           - spec_Dirichlet_logNorm
               (row (tabulate s (\<lambda>idx. bget (Dirichlet.concentration prior) idx
                       + bget (Dirichlet.concentration likelihood) idx - 1)) idx)))"
proof -
  let ?a = "Dirichlet.concentration prior" and ?b = "Dirichlet.concentration likelihood"
  let ?sa = "butlast (shape ?a)" and ?sb = "butlast (shape ?b)"
  let ?c = "\<lambda>idx. bget ?a idx + bget ?b idx - 1"
  let ?updated = "\<lparr>Dirichlet.concentration = tabulate s ?c\<rparr>"
  let ?na = "\<lambda>idx. spec_Dirichlet_logNorm (row ?a idx)"
  let ?nb = "\<lambda>idx. spec_Dirichlet_logNorm (row ?b idx)"
  from assms(1) have nea: "shape ?a \<noteq> []" by (simp add: Dirichlet_wf_def)
  from assms(2) have neb: "shape ?b \<noteq> []" by (simp add: Dirichlet_wf_def)
  from broadcast_shapes_butlast[OF assms(3) nea neb]
  have bs: "broadcast_shapes ?sa ?sb = Some (butlast s)" and nes: "s \<noteq> []" by simp_all
  have sc: "binop (+) ?a ?b = Inr (tabulate s (\<lambda>idx. bget ?a idx + bget ?b idx))"
    using assms(3) by (rule binop_Inr)
  have pos: "\<not> (validate \<and> \<not> (\<forall>idx. valid_index s idx \<longrightarrow> 0 < ?c idx))"
    using assms(4) by auto
  have init: "Dirichlet_init validate (tabulate s ?c) = Inr ?updated"
    unfolding Dirichlet_init_tabulate[OF nes] using pos by (rule if_not_P)
  have n1: "Dirichlet_log_normalizer prior = Inr (tabulate ?sa ?na)"
    using assms(1) by (rule Dirichlet_log_normalizer_eq)
  have n2: "Dirichlet_log_normalizer likelihood = Inr (tabulate ?sb ?nb)"
    using assms(2) by (rule Dirichlet_log_normalizer_eq)
  have "Dirichlet_wf ?updated" using nes by (simp add: Dirichlet_wf_def)
  then have n3: "Dirichlet_log_normalizer ?updated =
      Inr (tabulate (butlast s) (\<lambda>idx. spec_Dirichlet_logNorm (row (tabulate s ?c) idx)))"
    using Dirichlet_log_normalizer_eq[of ?updated] by simp
  have "binop (+) (tabulate ?sa ?na) (tabulate ?sb ?nb) =
      Inr (tabulate (butlast s) (\<lambda>idx. bget (tabulate ?sa ?na) idx + bget (tabulate ?sb ?nb) idx))"
    using bs by (simp add: binop_Inr)
  also have "tabulate (butlast s) (\<lambda>idx. bget (tabulate ?sa ?na) idx + bget (tabulate ?sb ?nb) idx) =
      tabulate (butlast s) (\<lambda>idx. spec_Dirichlet_logNorm (brow ?a idx)
                      + spec_Dirichlet_logNorm (brow ?b idx))"
  proof (rule tabulate_cong)
    fix idx assume v: "valid_index (butlast s) idx"
    have va: "valid_index ?sa (bindex ?sa idx)" using bs v by (rule bindex_left)
    have vb: "valid_index ?sb (bindex ?sb idx)" using bs v by (rule bindex_right)
    show "bget (tabulate ?sa ?na) idx + bget (tabulate ?sb ?nb) idx =
        spec_Dirichlet_logNorm (brow ?a idx) + spec_Dirichlet_logNorm (brow ?b idx)"
      using va vb by (simp add: bget_tabulate brow_def)
  qed
  finally have n12: "binop (+) (tabulate ?sa ?na) (tabulate ?sb ?nb) =
      Inr (tabulate (butlast s) (\<lambda>idx. spec_Dirichlet_logNorm (brow ?a idx)
                      + spec_Dirichlet_logNorm (brow ?b idx)))" .
  show ?thesis
    unfolding Dirichlet_conjugate_update_def dist.case sc err_bind_Inr Let_def tmap_tabulate
      init n1 n2 n12 n3 binop_tabulate_same ..
qed


text \<open>
  C2 (as amended). For two well-formed Gamma distributions of the same batch shape, and,
  when validation is on, with concentrations summing to more than 1 and rates with a
  positive sum in every element, \<open>conjugate_update\<close> returns a Gamma with
  concentration k + k' - 1 and rate r + r' and the log-normalizer logNorm(prior) +
  logNorm(likelihood) - logNorm(posterior), where logNorm(d) = concentration * log(rate)
  - lgamma(concentration). For two well-formed Dirichlet distributions whose
  concentration shapes broadcast to \<open>s\<close>, and, when validation is on, with
  concentrations summing to more than 1 in every element, \<open>conjugate_update\<close> returns a
  Dirichlet with concentration c + c' - 1 in every element, and the log-normalizer of
  the same form with logNorm(d) = lgamma(sum(c)) - sum(lgamma(c)), the sums over the
  last axis.
\<close>

theorem Gamma_Dirichlet_conjugate_update_posterior:
  "(Gamma_wf gp \<and> Gamma_wf gl
      \<and> shape (Gamma.concentration gl) = shape (Gamma.concentration gp)
      \<and> (validate \<longrightarrow> (\<forall>idx. valid_index (shape (Gamma.concentration gp)) idx \<longrightarrow>
             1 < tget (Gamma.concentration gp) idx + tget (Gamma.concentration gl) idx \<and>
             0 < tget (rate gp) idx + tget (rate gl) idx))
    \<longrightarrow> Gamma_conjugate_update validate gp (GammaD gl) =
      Inr (\<lparr>Gamma.concentration = tabulate (shape (Gamma.concentration gp)) (\<lambda>idx.
               tget (Gamma.concentration gp) idx + tget (Gamma.concentration gl) idx - 1),
            rate = tabulate (shape (Gamma.concentration gp)) (\<lambda>idx.
               tget (rate gp) idx + tget (rate gl) idx)\<rparr>,
           tabulate (shape (Gamma.concentration gp)) (\<lambda>idx.
               spec_Gamma_logNorm (tget (Gamma.concentration gp) idx) (tget (rate gp) idx)
             + spec_Gamma_logNorm (tget (Gamma.concentration gl) idx) (tget (rate gl) idx)
             - spec_Gamma_logNorm
                 (tget (Gamma.concentration gp) idx + tget (Gamma.concentration gl) idx - 1)
                 (tget (rate gp) idx + tget (rate gl) idx))))
   \<and> (Dirichlet_wf dp \<and> Dirichlet_wf dl
      \<and> broadcast_shapes (shape (Dirichlet.concentration dp))
            (shape (Dirichlet.concentration dl)) = Some s
      \<and> (validate \<longrightarrow> (\<forall>idx. valid_index s idx \<longrightarrow>
             1 < bget (Dirichlet.concentration dp) idx + bget (Dirichlet.concentration dl) idx))
    \<longrightarrow> Dirichlet_conjugate_update validate dp (DirichletD dl) =
      Inr (\<lparr>Dirichlet.concentration = tabulate s (\<lambda>idx.
               bget (Dirichlet.concentration dp) idx + bget (Dirichlet.concentration dl) idx - 1)\<rparr>,
           tabulate (butlast s) (\<lambda>idx.
               spec_Dirichlet_logNorm (brow (Dirichlet.concentration dp) idx)
             + spec_Dirichlet_logNorm (brow (Dirichlet.concentration dl) idx)
             - spec_Dirichlet_logNorm
                 (row (tabulate s (\<lambda>idx. bget (Dirichlet.concentration dp) idx
                         + bget (Dirichlet.concentration dl) idx - 1)) idx))))"
proof (intro conjI impI)
  assume "Gamma_wf gp \<and> Gamma_wf gl
      \<and> shape (Gamma.concentration gl) = shape (Gamma.concentration gp)
      \<and> (validate \<longrightarrow> (\<forall>idx. valid_index (shape (Gamma.concentration gp)) idx \<longrightarrow>
             1 < tget (Gamma.concentration gp) idx + tget (Gamma.concentration gl) idx \<and>
             0 < tget (rate gp) idx + tget (rate gl) idx))"
  then show "Gamma_conjugate_update validate gp (GammaD gl) =
      Inr (\<lparr>Gamma.concentration = tabulate (shape (Gamma.concentration gp)) (\<lambda>idx.
               tget (Gamma.concentration gp) idx + tget (Gamma.concentration gl) idx - 1),
            rate = tabulate (shape (Gamma.concentration gp)) (\<lambda>idx.
               tget (rate gp) idx + tget (rate gl) idx)\<rparr>,
           tabulate (shape (Gamma.concentration gp)) (\<lambda>idx.
               spec_Gamma_logNorm (tget (Gamma.concentration gp) idx) (tget (rate gp) idx)
             + spec_Gamma_logNorm (tget (Gamma.concentration gl) idx) (tget (rate gl) idx)
             - spec_Gamma_logNorm
                 (tget (Gamma.concentration gp) idx + tget (Gamma.concentration gl) idx - 1)
                 (tget (rate gp) idx + tget (rate gl) idx)))"
    by (intro Gamma_conjugate_update_eq) simp_all
next
  assume "Dirichlet_wf dp \<and> Dirichlet_wf dl
      \<and> broadcast_shapes (shape (Dirichlet.concentration dp))
            (shape (Dirichlet.concentration dl)) = Some s
      \<and> (validate \<longrightarrow> (\<forall>idx. valid_index s idx \<longrightarrow>
             1 < bget (Dirichlet.concentration dp) idx + bget (Dirichlet.concentration dl) idx))"
  then show "Dirichlet_conjugate_update validate dp (DirichletD dl) =
      Inr (\<lparr>Dirichlet.concentration = tabulate s (\<lambda>idx.
               bget (Dirichlet.concentration dp) idx + bget (Dirichlet.concentration dl) idx - 1)\<rparr>,
           tabulate (butlast s) (\<lambda>idx.
               spec_Dirichlet_logNorm (brow (Dirichlet.concentration dp) idx)
             + spec_Dirichlet_logNorm (brow (Dirichlet.concentration dl) idx)
             - spec_Dirichlet_logNorm
                 (row (tabulate s (\<lambda>idx. bget (Dirichlet.concentration dp) idx
                         + bget (Dirichlet.concentration dl) idx - 1)) idx)))"
    by (intro Dirichlet_conjugate_update_eq) simp_all
qed

text \<open>
  C2, the claim as stated fails: with validation on, two Gamma distributions of the same
  batch shape with concentration 1/2 make the constructor of the posterior raise, its
  concentration being 0; and two Dirichlet distributions whose concentration shapes do
  not broadcast make \<open>conjugate_update\<close> raise at the sum.
\<close>

theorem Gamma_Dirichlet_conjugate_update_counterexample:
  "Gamma_conjugate_update True
      \<lparr>Gamma.concentration = Tensor [] [1 / 2], rate = Tensor [] [1]\<rparr>
      (GammaD \<lparr>Gamma.concentration = Tensor [] [1 / 2], rate = Tensor [] [1]\<rparr>)
     = Inl ValueError
   \<and> Dirichlet_conjugate_update False
      \<lparr>Dirichlet.concentration = Tensor [2] [1, 1]\<rparr>
      (DirichletD \<lparr>Dirichlet.concentration = Tensor [3] [1, 1, 1]\<rparr>)
     = Inl RuntimeError"
proof
  show "Gamma_conjugate_update True
      \<lparr>Gamma.concentration = Tensor [] [1 / 2], rate = Tensor [] [1]\<rparr>
      (GammaD \<lparr>Gamma.concentration = Tensor [] [1 / 2], rate = Tensor [] [1]\<rparr>)
     = Inl ValueError"
    by (simp add: Gamma_conjugate_update_def binop_def broadcast_shapes_def tabulate_Nil
        tmap_def Gamma_init_def broadcast_tensors_def bget_Nil tall_def)
next
  show "Dirichlet_conjugate_update False
      \<lparr>Dirichlet.concentration = Tensor [2] [1, 1]\<rparr>
      (DirichletD \<lparr>Dirichlet.concentration = Tensor [3] [1, 1, 1]\<rparr>)
     = Inl RuntimeError"
    by (simp add: Dirichlet_conjugate_update_def binop_def broadcast_shapes_def)
qed

lemma tget_single: "tget (Tensor [n] xs) [i] = xs ! i"
  by (simp add: tget_def)

theorem Gamma_Dirichlet_conjugate_update_posterior_witness:
  "Gamma_conjugate_update True
      \<lparr>Gamma.concentration = Tensor [2] [2, 3], rate = Tensor [2] [1, 2]\<rparr>
      (GammaD \<lparr>Gamma.concentration = Tensor [2] [2, 2], rate = Tensor [2] [3, 1]\<rparr>)
     = Inr (\<lparr>Gamma.concentration = Tensor [2] [3, 4], rate = Tensor [2] [4, 3]\<rparr>,
            Tensor [2]
              [spec_Gamma_logNorm 2 1 + spec_Gamma_logNorm 2 3 - spec_Gamma_logNorm 3 4,
               spec_Gamma_logNorm 3 2 + spec_Gamma_logNorm 2 1 - spec_Gamma_logNorm 4 3])
   \<and> Dirichlet_conjugate_update True
      \<lparr>Dirichlet.concentration = Tensor [2] [2, 3]\<rparr>
      (DirichletD \<lparr>Dirichlet.concentration = Tensor [2] [1, 2]\<rparr>)
     = Inr (\<lparr>Dirichlet.concentration = Tensor [2] [2, 4]\<rparr>,
            Tensor []
              [spec_Dirichlet_logNorm [2, 3] + spec_Dirichlet_logNorm [1, 2]
                 - spec_Dirichlet_logNorm [2, 4]])"
proof -
  let ?gp = "\<lparr>Gamma.concentration = Tensor [2] [2, 3], rate = Tensor [2] [1, 2 :: real]\<rparr>"
  let ?gl = "\<lparr>Gamma.concentration = Tensor [2] [2, 2], rate = Tensor [2] [3, 1 :: real]\<rparr>"
  let ?dp = "\<lparr>Dirichlet.concentration = Tensor [2] [2, 3 :: real]\<rparr>"
  let ?dl = "\<lparr>Dirichlet.concentration = Tensor [2] [1, 2 :: real]\<rparr>"
  have g: "Gamma_wf ?gp \<and> Gamma_wf ?gl
      \<and> shape (Gamma.concentration ?gl) = shape (Gamma.concentration ?gp)
      \<and> (True \<longrightarrow> (\<forall>idx. valid_index (shape (Gamma.concentration ?gp)) idx \<longrightarrow>
             1 < tget (Gamma.concentration ?gp) idx + tget (Gamma.concentration ?gl) idx \<and>
             0 < tget (rate ?gp) idx + tget (rate ?gl) idx))"
    by (auto simp: Gamma_wf_def wf_tensor_def valid_index_2 tget_single)
  have d: "Dirichlet_wf ?dp \<and> Dirichlet_wf ?dl
      \<and> broadcast_shapes (shape (Dirichlet.concentration ?dp))
            (shape (Dirichlet.concentration ?dl)) = Some [2]
      \<and> (True \<longrightarrow> (\<forall>idx. valid_index [2] idx \<longrightarrow>
             1 < bget (Dirichlet.concentration ?dp) idx + bget (Dirichlet.concentration ?dl) idx))"
    by (auto simp: Dirichlet_wf_def wf_tensor_def valid_index_2 bget_single)
  from Gamma_Dirichlet_conjugate_update_posterior[of ?gp ?gl True ?dp ?dl "[2]"] g d
  have "Gamma_conjugate_update True ?gp (GammaD ?gl) =
      Inr (\<lparr>Gamma.concentration = tabulate (shape (Gamma.concentration ?gp)) (\<lambda>idx.
               tget (Gamma.concentration ?gp) idx + tget (Gamma.concentration ?gl) idx - 1),
            rate = tabulate (shape (Gamma.concentration ?gp)) (\<lambda>idx.
               tget (rate ?gp) idx + tget (rate ?gl) idx)\<rparr>,
           tabulate (shape (Gamma.concentration ?gp)) (\<lambda>idx.
               spec_Gamma_logNorm (tget (Gamma.concentration ?gp) idx) (tget (rate ?gp) idx)
             + spec_Gamma_logNorm (tget (Gamma.concentration ?gl) idx) (tget (rate ?gl) idx)
             - spec_Gamma_logNorm
                 (tget (Gamma.concentration ?gp) idx + tget (Gamma.concentration ?gl) idx - 1)
                 (tget (rate ?gp) idx + tget (rate ?gl) idx)))"
    and "Dirichlet_conjugate_update True ?dp (DirichletD ?dl) =
      Inr (\<lparr>Dirichlet.concentration = tabulate [2] (\<lambda>idx.
               bget (Dirichlet.concentration ?dp) idx + bget (Dirichlet.concentration ?dl) idx - 1)\<rparr>,
           tabulate (butlast [2]) (\<lambda>idx.
               spec_Dirichlet_logNorm (brow (Dirichlet.concentration ?dp) idx)
             + spec_Dirichlet_logNorm (brow (Dirichlet.concentration ?dl) idx)
             - spec_Dirichlet_logNorm
                 (row (tabulate [2] (\<lambda>idx. bget (Dirichlet.concentration ?dp) idx
                         + bget (Dirichlet.concentration ?dl) idx - 1)) idx)))"
    by blast+
  then show ?thesis
    by (simp add: tabulate_single tabulate_Nil upt_0_2 tget_single bget_single
        brow_def row_def bindex_def)
qed


subsection \<open>Expanding\<close>

lemma broadcast_rev_append_left: "broadcast_rev (xs @ ys) xs = Some (xs @ ys)"
  by (induction xs) simp_all

lemma broadcast_rev_append_right: "broadcast_rev xs (xs @ ys) = Some (xs @ ys)"
  by (induction xs) simp_all

lemma broadcast_shapes_prefix_left [simp]: "broadcast_shapes (ss @ bs) bs = Some (ss @ bs)"
  by (simp add: broadcast_shapes_def broadcast_rev_append_left)

lemma broadcast_shapes_prefix_right [simp]: "broadcast_shapes bs (ss @ bs) = Some (ss @ bs)"
  by (simp add: broadcast_shapes_def broadcast_rev_append_right)

lemma bindex_prefix: "valid_index (ss @ bs) idx \<Longrightarrow> valid_index bs (bindex bs idx)"
  using bindex_right[of "ss @ bs" bs "ss @ bs" idx] by simp

lemma map2_keep_size:
  "length ds = length es \<Longrightarrow> list_all (\<lambda>e. 0 \<le> e) es
     \<Longrightarrow> map2 (\<lambda>d e. if e = - 1 then d else nat e) ds es = map nat es"
  by (induction ds es rule: list_induct2) auto

lemma expand_shape:
  assumes "expand t (map int bs) = Inr t'"
  shows "shape t' = bs \<and> wf_tensor t'"
proof -
  let ?sizes = "map int bs"
  let ?k = "length ?sizes - dim t"
  from assms have len: "\<not> length ?sizes < dim t"
    by (auto simp: expand_def Let_def split: if_splits)
  then have l: "length (shape t) = length (drop ?k ?sizes)"
    by (simp add: dim_def)
  have nn: "list_all (\<lambda>e. 0 \<le> e) (drop ?k ?sizes)"
    by (simp add: list_all_iff drop_map)
  have "map nat (take ?k ?sizes) @ map2 (\<lambda>d e. if e = - 1 then d else nat e) (shape t) (drop ?k ?sizes)
      = map nat (take ?k ?sizes) @ map nat (drop ?k ?sizes)"
    using map2_keep_size[OF l nn] by simp
  also have "\<dots> = map nat ?sizes"
    by (simp only: map_append[symmetric] append_take_drop_id)
  also have "\<dots> = bs" by (simp add: comp_def)
  finally have "map nat (take ?k ?sizes) @ map2 (\<lambda>d e. if e = - 1 then d else nat e) (shape t) (drop ?k ?sizes) = bs" .
  with assms show ?thesis
    by (auto simp: expand_def Let_def split: if_splits)
qed

lemma expand_prefix:
  "expand t (map int (ss @ shape t)) = Inr (tabulate (ss @ shape t) (bget t))"
proof -
  have z: "\<not> list_ex (\<lambda>(d, e). e \<noteq> - 1 \<and> e \<noteq> int d \<and> (d \<noteq> 1 \<or> e < 0)) (zip s (map int s))"
    for s :: "nat list"
    by (induction s) simp_all
  have m: "map2 (\<lambda>d e. if e = - 1 then d else nat e) s (map int s) = s" for s :: "nat list"
    by (induction s) simp_all
  let ?sizes = "map int (ss @ shape t)"
  have k: "length ?sizes - dim t = length ss" by (simp add: dim_def)
  have lead: "take (length ss) ?sizes = map int ss" by simp
  have trail: "drop (length ss) ?sizes = map int (shape t)" by simp
  have nn: "\<not> list_ex (\<lambda>e. e < 0) (map int ss)" by (simp add: list_ex_iff)
  have len: "\<not> length ?sizes < dim t" by (simp add: dim_def)
  have id: "map nat (map int ss) = ss" by (simp add: comp_def)
  show ?thesis
    unfolding expand_def k Let_def lead trail id m using z nn len by simp
qed


subsection \<open>Operations between a batch and its extension by sample dimensions\<close>

lemma binop_tabulate_prefix_left:
  "binop f (tabulate (ss @ bs) g) (tabulate bs h) =
     Inr (tabulate (ss @ bs) (\<lambda>idx. f (g idx) (h (bindex bs idx))))"
proof -
  have "tabulate (ss @ bs) (\<lambda>idx. f (bget (tabulate (ss @ bs) g) idx) (bget (tabulate bs h) idx))
      = tabulate (ss @ bs) (\<lambda>idx. f (g idx) (h (bindex bs idx)))"
    by (rule tabulate_cong) (simp add: bget_valid tget_tabulate bget_tabulate bindex_prefix)
  then show ?thesis by (simp add: binop_def)
qed

lemma binop_tabulate_prefix_right:
  "binop f (tabulate bs h) (tabulate (ss @ bs) g) =
     Inr (tabulate (ss @ bs) (\<lambda>idx. f (h (bindex bs idx)) (g idx)))"
proof -
  have "tabulate (ss @ bs) (\<lambda>idx. f (bget (tabulate bs h) idx) (bget (tabulate (ss @ bs) g) idx))
      = tabulate (ss @ bs) (\<lambda>idx. f (h (bindex bs idx)) (g idx))"
    by (rule tabulate_cong) (simp add: bget_valid tget_tabulate bget_tabulate bindex_prefix)
  then show ?thesis by (simp add: binop_def)
qed

subsection \<open>Binomial\<close>

lemma round_half_even_nonneg: "0 \<le> x \<Longrightarrow> 0 \<le> round_half_even x"
  by (simp add: round_half_even_def Let_def)

lemma clamped_poisson_elem:
  "(case (min (real X + round_half_even (min prob (1 - prob) * n - prob * (1 - prob) * n)) n,
          n - min (real X + round_half_even (min prob (1 - prob) * n - prob * (1 - prob) * n)) n)
    of (x, y) \<Rightarrow> if prob < 1 - prob then x else y)
   = spec_clamped_poisson prob n X"
proof (cases "prob < 1 - prob")
  case True
  then have "min prob (1 - prob) = prob" by simp
  with True show ?thesis by (simp add: spec_clamped_poisson_def Let_def)
next
  case False
  then have m: "min prob (1 - prob) = 1 - prob" by simp
  have c: "prob * (1 - prob) = (1 - prob) * prob" by (rule mult.commute)
  from False m show ?thesis by (simp add: spec_clamped_poisson_def Let_def c)
qed

lemma spec_clamped_poisson_range:
  assumes "0 \<le> n"
  shows "0 \<le> spec_clamped_poisson prob n X \<and> spec_clamped_poisson prob n X \<le> n"
proof -
  let ?p = "min prob (1 - prob)"
  have "?p * n - ?p * (1 - ?p) * n = ?p * ?p * n" by (simp add: algebra_simps)
  also have "0 \<le> ?p * ?p * n" using assms by simp
  finally have "0 \<le> round_half_even (?p * n - ?p * (1 - ?p) * n)"
    by (rule round_half_even_nonneg)
  then have "0 \<le> real X + round_half_even (?p * n - ?p * (1 - ?p) * n)" by simp
  then show ?thesis using assms
    by (simp add: spec_clamped_poisson_def Let_def min_def)
qed

lemma Binomial_probs_wf:
  assumes "Binomial_wf d"
  shows "\<exists>p. Binomial_probs d = Inr p \<and> wf_tensor p \<and> shape p = Binomial.batch_shape d"
proof (cases "Binomial.probs d")
  case (Some p)
  with assms show ?thesis by (simp add: Binomial_probs_def Binomial_wf_def param_wf_def)
next
  case None
  with assms obtain l where "Binomial.logits d = Some l" by (auto simp: Binomial_wf_def)
  with None assms show ?thesis by (simp add: Binomial_probs_def Binomial_wf_def param_wf_def)
qed

lemma clamped_poisson_tabulate:
  "clamped_poisson (ss @ bs) (tabulate bs P) (tabulate bs N) poisson =
     Inr (tabulate (ss @ bs)
       (\<lambda>idx. spec_clamped_poisson (P (bindex bs idx)) (N (bindex bs idx)) (poisson idx)))"
proof -
  have ex: "expand (tabulate bs g) (map int (ss @ bs)) =
      Inr (tabulate (ss @ bs) (bget (tabulate bs g)))" for g :: "nat list \<Rightarrow> real"
    using expand_prefix[of "tabulate bs g" ss] by simp
  show ?thesis
    unfolding clamped_poisson_def Let_def twhere_def
    by (simp only: tmap_tabulate binop_tabulate_same err_bind_Inr ex shape_tabulate
        binop_tabulate_prefix_left binop_tabulate_prefix_right clamped_poisson_elem)
qed

lemma Binomial_sample_approx:
  assumes wf: "Binomial_wf d"
    and th: "approx_sample_thresh d = PyNum t"
    and mn: "tmin (total_count d) = Inr m" and lt: "t < m"
    and pr: "Binomial_probs d = Inr p"
  shows "Binomial_sample d ss poisson exact =
     Inr (Approximate (tabulate (ss @ Binomial.batch_shape d)
       (\<lambda>idx. spec_clamped_poisson (bget p idx) (bget (total_count d) idx) (poisson idx))))"
proof -
  let ?bs = "Binomial.batch_shape d"
  let ?n = "total_count d"
  from Binomial_probs_wf[OF wf] pr have wp: "wf_tensor p" and sp: "shape p = ?bs" by auto
  from wf have wn: "wf_tensor ?n" and sn: "shape ?n = ?bs" by (simp_all add: Binomial_wf_def)
  have p: "tabulate ?bs (tget p) = p" using tabulate_tget[OF wp] sp by simp
  have n: "tabulate ?bs (tget ?n) = ?n" using tabulate_tget[OF wn] sn by simp
  have "clamped_poisson (ss @ ?bs) p ?n poisson =
     Inr (tabulate (ss @ ?bs)
       (\<lambda>idx. spec_clamped_poisson (tget p (bindex ?bs idx)) (tget ?n (bindex ?bs idx)) (poisson idx)))"
    using clamped_poisson_tabulate[of ss ?bs "tget p" "tget ?n" poisson] by (simp only: p n)
  then show ?thesis
    unfolding Binomial_sample_def th py_lt_inf.simps err_bind_Inr if_True mn py_lt.simps pr Let_def
    using lt by (simp add: bget_def sp sn)
qed


lemma tmin_eq: "tmin t = Inr m \<longleftrightarrow> data t \<noteq> [] \<and> m = Min (set (data t))"
proof (cases "data t")
  case Nil
  then show ?thesis by (simp add: tmin_def)
next
  case (Cons x xs)
  have "fold min xs x = Min (set (x # xs))" by (simp only: Min.set_eq_fold)
  with Cons show ?thesis by (auto simp: tmin_def)
qed

lemma tmin_le:
  assumes "wf_tensor t" "tmin t = Inr m" "valid_index (shape t) idx"
  shows "m \<le> tget t idx"
proof -
  have "ravel (shape t) idx < length (data t)"
    using assms(1,3) by (simp add: wf_tensor_def ravel_less)
  then have "tget t idx \<in> set (data t)" by (simp add: tget_def)
  then have "Min (set (data t)) \<le> tget t idx" by simp
  with assms(2) show ?thesis by (simp add: tmin_eq)
qed

text \<open>
  C3. For a well-formed Binomial, \<open>sample\<close> takes the approximate path exactly when the
  threshold is a finite number that is less than the least \<open>total_count\<close> of the batch;
  with the threshold infinity it takes the exact path, whatever \<open>total_count\<close> is.
\<close>

theorem Binomial_sample_path:
  assumes "Binomial_wf d"
  shows "((\<exists>r. Binomial_sample d ss poisson exact = Inr (Approximate r)) \<longleftrightarrow>
            (\<exists>t. approx_sample_thresh d = PyNum t \<and> data (total_count d) \<noteq> []
                 \<and> t < Min (set (data (total_count d)))))
       \<and> (approx_sample_thresh d = PyInf \<longrightarrow>
            Binomial_sample d ss poisson exact = Inr (Exact exact))"
proof (intro conjI iffI impI)
  assume "\<exists>r. Binomial_sample d ss poisson exact = Inr (Approximate r)"
  then obtain r where r: "Binomial_sample d ss poisson exact = Inr (Approximate r)" ..
  from assms have "thresh_wf (approx_sample_thresh d)" by (simp add: Binomial_wf_def)
  then consider t where "approx_sample_thresh d = PyNum t" | "approx_sample_thresh d = PyInf"
    by (cases "approx_sample_thresh d") (simp_all add: thresh_wf_def)
  then show "\<exists>t. approx_sample_thresh d = PyNum t \<and> data (total_count d) \<noteq> []
                 \<and> t < Min (set (data (total_count d)))"
  proof cases
    case 1
    show ?thesis
    proof (cases "tmin (total_count d)")
      case (Inl e)
      with r 1 show ?thesis by (simp add: Binomial_sample_def)
    next
      case (Inr m)
      with r 1 have "t < m" by (simp add: Binomial_sample_def split: if_splits)
      with Inr 1 show ?thesis by (simp add: tmin_eq)
    qed
  next
    case 2
    with r show ?thesis by (simp add: Binomial_sample_def)
  qed
next
  assume "\<exists>t. approx_sample_thresh d = PyNum t \<and> data (total_count d) \<noteq> []
                 \<and> t < Min (set (data (total_count d)))"
  then obtain t where t: "approx_sample_thresh d = PyNum t"
    and m: "tmin (total_count d) = Inr (Min (set (data (total_count d))))"
    and lt: "t < Min (set (data (total_count d)))"
    by (auto simp: tmin_eq)
  from Binomial_probs_wf[OF assms] obtain p where p: "Binomial_probs d = Inr p" by auto
  from Binomial_sample_approx[OF assms t m lt p]
  show "\<exists>r. Binomial_sample d ss poisson exact = Inr (Approximate r)" by blast
next
  assume "approx_sample_thresh d = PyInf"
  then show "Binomial_sample d ss poisson exact = Inr (Exact exact)"
    by (simp add: Binomial_sample_def)
qed

text \<open>
  C4. For a well-formed Binomial on which the approximate path is active, \<open>sample\<close>
  returns a tensor of the shape \<open>sample_shape + batch_shape\<close>; each of its elements is
  what the steps of the clamped-Poisson algorithm give for the probability, the count
  and the Poisson draw of that element, and lies between 0 and the \<open>total_count\<close> of
  that element.
\<close>

theorem Binomial_sample_approx_range:
  assumes "Binomial_wf d"
    and "approx_sample_thresh d = PyNum t"
    and "data (total_count d) \<noteq> []"
    and "t < Min (set (data (total_count d)))"
  shows "\<exists>p r. Binomial_probs d = Inr p
       \<and> Binomial_sample d ss poisson exact = Inr (Approximate r)
       \<and> shape r = ss @ Binomial.batch_shape d
       \<and> (\<forall>idx. valid_index (ss @ Binomial.batch_shape d) idx \<longrightarrow>
             tget r idx = spec_clamped_poisson (bget p idx) (bget (total_count d) idx) (poisson idx)
           \<and> 0 \<le> tget r idx \<and> tget r idx \<le> bget (total_count d) idx)"
proof -
  let ?bs = "Binomial.batch_shape d"
  let ?n = "total_count d"
  from Binomial_probs_wf[OF assms(1)] obtain p where p: "Binomial_probs d = Inr p" by auto
  have m: "tmin ?n = Inr (Min (set (data ?n)))" using assms(3) by (simp add: tmin_eq)
  let ?r = "tabulate (ss @ ?bs)
       (\<lambda>idx. spec_clamped_poisson (bget p idx) (bget ?n idx) (poisson idx))"
  have r: "Binomial_sample d ss poisson exact = Inr (Approximate ?r)"
    using assms(1,2) m assms(4) p by (rule Binomial_sample_approx)
  from assms(1) have wn: "wf_tensor ?n" and sn: "shape ?n = ?bs"
    and "thresh_wf (approx_sample_thresh d)"
    by (simp_all add: Binomial_wf_def)
  with assms(2) have t0: "0 \<le> t" by (simp add: thresh_wf_def)
  have "tget ?r idx = spec_clamped_poisson (bget p idx) (bget ?n idx) (poisson idx)
      \<and> 0 \<le> tget ?r idx \<and> tget ?r idx \<le> bget ?n idx"
    if v: "valid_index (ss @ ?bs) idx" for idx
  proof -
    have "valid_index (shape ?n) (bindex (shape ?n) idx)"
      using v sn by (simp add: bindex_prefix)
    with wn m have "Min (set (data ?n)) \<le> bget ?n idx"
      unfolding bget_def by (rule tmin_le)
    with assms(4) t0 have "0 \<le> bget ?n idx" by simp
    then show ?thesis
      using v spec_clamped_poisson_range[of "bget ?n idx" "bget p idx" "poisson idx"]
      by (simp add: tget_tabulate)
  qed
  then have all: "\<forall>idx. valid_index (ss @ ?bs) idx \<longrightarrow>
      tget ?r idx = spec_clamped_poisson (bget p idx) (bget ?n idx) (poisson idx)
      \<and> 0 \<le> tget ?r idx \<and> tget ?r idx \<le> bget ?n idx"
    by blast
  have "Binomial_probs d = Inr p
       \<and> Binomial_sample d ss poisson exact = Inr (Approximate ?r)
       \<and> shape ?r = ss @ ?bs
       \<and> (\<forall>idx. valid_index (ss @ ?bs) idx \<longrightarrow>
             tget ?r idx = spec_clamped_poisson (bget p idx) (bget ?n idx) (poisson idx)
           \<and> 0 \<le> tget ?r idx \<and> tget ?r idx \<le> bget ?n idx)"
    by (intro conjI p r shape_tabulate all)
  then show ?thesis by blast
qed


lemma Binomial_init_wf:
  assumes "Binomial_init validate count ps ls va thresh = Inr d"
  shows "Binomial_wf d"
proof -
  from assms have num: "is_Number thresh" and ge: "py_ge_zero thresh = Inr True"
    by (auto simp: Binomial_init_def err_bind_def split: if_splits sum.splits)
  then have th: "thresh_wf thresh"
    by (cases thresh) (simp_all add: thresh_wf_def)
  from assms num ge th show ?thesis
    by (auto simp: Binomial_init_def Let_def broadcast_tensors_def Binomial_wf_def param_wf_def
        split: option.splits if_splits)
qed

lemma Binomial_sample_example:
  "Binomial_sample
     \<lparr>total_count = Tensor [2] [10, 20], probs = Some (Tensor [2] [1 / 4, 3 / 4]), logits = None,
      param = Some (Tensor [2] [1 / 4, 3 / 4]), batch_shape = [2], validate_args = False,
      approx_sample_thresh = PyNum 5\<rparr> [] (\<lambda>idx. 3) exact
   = Inr (Approximate (Tensor [2] [4, 16]))"
proof -
  let ?d = "\<lparr>total_count = Tensor [2] [10, 20], probs = Some (Tensor [2] [1 / 4, 3 / 4 :: real]),
      logits = None, param = Some (Tensor [2] [1 / 4, 3 / 4 :: real]), batch_shape = [2],
      validate_args = False, approx_sample_thresh = PyNum 5\<rparr>"
  have wf: "Binomial_wf ?d"
    by (simp add: Binomial_wf_def param_wf_def thresh_wf_def wf_tensor_def)
  have th: "approx_sample_thresh ?d = PyNum 5" by simp
  have mn: "tmin (total_count ?d) = Inr 10" by (simp add: tmin_def)
  have pr: "Binomial_probs ?d = Inr (Tensor [2] [1 / 4, 3 / 4])" by (simp add: Binomial_probs_def)
  have a: "spec_clamped_poisson (1 / 4) 10 3 = 4"
    by (simp add: spec_clamped_poisson_def round_half_even_def Let_def)
  have b: "spec_clamped_poisson (3 / 4) 20 3 = 16"
    by (simp add: spec_clamped_poisson_def round_half_even_def Let_def)
  from Binomial_sample_approx[OF wf th mn _ pr, of "[]" "\<lambda>idx. 3" exact] show ?thesis
    by (simp add: tabulate_single upt_0_2 bget_single a b)
qed

theorem Binomial_sample_path_witness:
  "Binomial_wf
     \<lparr>total_count = Tensor [2] [10, 20], probs = Some (Tensor [2] [1 / 4, 3 / 4]), logits = None,
      param = Some (Tensor [2] [1 / 4, 3 / 4]), batch_shape = [2], validate_args = False,
      approx_sample_thresh = PyNum 5\<rparr>
   \<and> (\<exists>r. Binomial_sample
     \<lparr>total_count = Tensor [2] [10, 20], probs = Some (Tensor [2] [1 / 4, 3 / 4]), logits = None,
      param = Some (Tensor [2] [1 / 4, 3 / 4]), batch_shape = [2], validate_args = False,
      approx_sample_thresh = PyNum 5\<rparr> [] (\<lambda>idx. 3) (Tensor [2] [2, 15])
       = Inr (Approximate r))
   \<and> Binomial_sample
     \<lparr>total_count = Tensor [2] [10, 20], probs = Some (Tensor [2] [1 / 4, 3 / 4]), logits = None,
      param = Some (Tensor [2] [1 / 4, 3 / 4]), batch_shape = [2], validate_args = False,
      approx_sample_thresh = PyInf\<rparr> [] (\<lambda>idx. 3) (Tensor [2] [2, 15])
       = Inr (Exact (Tensor [2] [2, 15]))"
proof -
  let ?d = "\<lambda>th. \<lparr>total_count = Tensor [2] [10, 20], probs = Some (Tensor [2] [1 / 4, 3 / 4 :: real]),
      logits = None, param = Some (Tensor [2] [1 / 4, 3 / 4 :: real]), batch_shape = [2],
      validate_args = False, approx_sample_thresh = th\<rparr>"
  have wf: "Binomial_wf (?d (PyNum 5))" "Binomial_wf (?d PyInf)"
    by (simp_all add: Binomial_wf_def param_wf_def thresh_wf_def wf_tensor_def)
  have cond: "\<exists>t. approx_sample_thresh (?d (PyNum 5)) = PyNum t
      \<and> data (total_count (?d (PyNum 5))) \<noteq> []
      \<and> t < Min (set (data (total_count (?d (PyNum 5)))))"
    by simp
  from Binomial_sample_path[OF wf(1), of "[]" "\<lambda>idx. 3" "Tensor [2] [2, 15]"] cond
  have "\<exists>r. Binomial_sample (?d (PyNum 5)) [] (\<lambda>idx. 3) (Tensor [2] [2, 15]) = Inr (Approximate r)"
    by blast
  moreover from Binomial_sample_path[OF wf(2), of "[]" "\<lambda>idx. 3" "Tensor [2] [2, 15]"]
  have "Binomial_sample (?d PyInf) [] (\<lambda>idx. 3) (Tensor [2] [2, 15]) = Inr (Exact (Tensor [2] [2, 15]))"
    by simp
  ultimately show ?thesis using wf by simp
qed

theorem Binomial_sample_approx_range_witness:
  "\<exists>r. Binomial_sample
     \<lparr>total_count = Tensor [2] [10, 20], probs = Some (Tensor [2] [1 / 4, 3 / 4]), logits = None,
      param = Some (Tensor [2] [1 / 4, 3 / 4]), batch_shape = [2], validate_args = False,
      approx_sample_thresh = PyNum 5\<rparr> [] (\<lambda>idx. 3) (Tensor [2] [2, 15])
       = Inr (Approximate r)
     \<and> shape r = [2]
     \<and> 0 \<le> tget r [0] \<and> tget r [0] \<le> 10 \<and> 0 \<le> tget r [1] \<and> tget r [1] \<le> 20"
proof -
  let ?d = "\<lparr>total_count = Tensor [2] [10, 20], probs = Some (Tensor [2] [1 / 4, 3 / 4 :: real]),
      logits = None, param = Some (Tensor [2] [1 / 4, 3 / 4 :: real]), batch_shape = [2],
      validate_args = False, approx_sample_thresh = PyNum 5\<rparr>"
  have wf: "Binomial_wf ?d"
    by (simp add: Binomial_wf_def param_wf_def thresh_wf_def wf_tensor_def)
  have th: "approx_sample_thresh ?d = PyNum 5" by simp
  have ne: "data (total_count ?d) \<noteq> []" by simp
  have lt: "5 < Min (set (data (total_count ?d)))" by simp
  from Binomial_sample_approx_range[OF wf th ne lt, of "[]" "\<lambda>idx. 3" "Tensor [2] [2, 15]"]
  obtain p r where r: "Binomial_sample ?d [] (\<lambda>idx. 3) (Tensor [2] [2, 15]) = Inr (Approximate r)"
    and s: "shape r = [] @ Binomial.batch_shape ?d"
    and all: "\<And>idx. valid_index ([] @ Binomial.batch_shape ?d) idx \<Longrightarrow>
        0 \<le> tget r idx \<and> tget r idx \<le> bget (total_count ?d) idx"
    by blast
  have "0 \<le> tget r [0] \<and> tget r [0] \<le> 10"
    using all[of "[0]"] by (simp add: bget_single)
  moreover have "0 \<le> tget r [1] \<and> tget r [1] \<le> 20"
    using all[of "[1]"] by (simp add: bget_single)
  ultimately show ?thesis using r s by auto
qed


subsection \<open>Contract violations\<close>

text \<open>
  C9. \<open>conjugate_update\<close> of a Beta, a Gamma and a Dirichlet raises
  \<open>AssertionError\<close> for every \<open>other\<close> that is not of the same family, and the
  constructor of Binomial raises \<open>AssertionError\<close> when the threshold is not a number or
  is negative.
\<close>

theorem contract_violations_raise:
  "((\<forall>b. other \<noteq> BetaD b) \<longrightarrow> Beta_conjugate_update validate bd other = Inl AssertionError)
   \<and> ((\<forall>g. other \<noteq> GammaD g) \<longrightarrow> Gamma_conjugate_update validate gd other = Inl AssertionError)
   \<and> ((\<forall>c. other \<noteq> DirichletD c) \<longrightarrow>
          Dirichlet_conjugate_update validate dd other = Inl AssertionError)
   \<and> (\<not> is_Number thresh \<or> is_negative thresh \<longrightarrow>
          Binomial_init validate count ps ls va thresh = Inl AssertionError)"
proof (intro conjI impI)
  assume "\<forall>b. other \<noteq> BetaD b"
  then show "Beta_conjugate_update validate bd other = Inl AssertionError"
    by (cases other) (simp_all add: Beta_conjugate_update_def)
next
  assume "\<forall>g. other \<noteq> GammaD g"
  then show "Gamma_conjugate_update validate gd other = Inl AssertionError"
    by (cases other) (simp_all add: Gamma_conjugate_update_def)
next
  assume "\<forall>c. other \<noteq> DirichletD c"
  then show "Dirichlet_conjugate_update validate dd other = Inl AssertionError"
    by (cases other) (simp_all add: Dirichlet_conjugate_update_def)
next
  assume "\<not> is_Number thresh \<or> is_negative thresh"
  then show "Binomial_init validate count ps ls va thresh = Inl AssertionError"
    by (cases thresh) (simp_all add: Binomial_init_def is_Number_def is_negative_def)
qed

theorem contract_violations_raise_witness:
  "Beta_conjugate_update True
      \<lparr>concentration1 = Tensor [] [2], concentration0 = Tensor [] [3]\<rparr>
      (GammaD \<lparr>Gamma.concentration = Tensor [] [2], rate = Tensor [] [3]\<rparr>) = Inl AssertionError
   \<and> Gamma_conjugate_update True
      \<lparr>Gamma.concentration = Tensor [] [2], rate = Tensor [] [3]\<rparr>
      (DirichletD \<lparr>Dirichlet.concentration = Tensor [2] [2, 3]\<rparr>) = Inl AssertionError
   \<and> Dirichlet_conjugate_update True
      \<lparr>Dirichlet.concentration = Tensor [2] [2, 3]\<rparr> OtherD = Inl AssertionError
   \<and> Binomial_init True (Tensor [] [10]) (Some (Tensor [] [1 / 2])) None None (PyNum (- 1))
       = Inl AssertionError
   \<and> Binomial_init True (Tensor [] [10]) (Some (Tensor [] [1 / 2])) None None PyNotNumber
       = Inl AssertionError"
proof -
  let ?b = "\<lparr>concentration1 = Tensor [] [2], concentration0 = Tensor [] [3 :: real]\<rparr>"
  let ?g = "\<lparr>Gamma.concentration = Tensor [] [2], rate = Tensor [] [3 :: real]\<rparr>"
  let ?d = "\<lparr>Dirichlet.concentration = Tensor [2] [2, 3 :: real]\<rparr>"
  have 1: "Beta_conjugate_update True ?b (GammaD ?g) = Inl AssertionError"
    using contract_violations_raise[of "GammaD ?g" True ?b] by simp
  have 2: "Gamma_conjugate_update True ?g (DirichletD ?d) = Inl AssertionError"
    using contract_violations_raise[of "DirichletD ?d" True _ ?g] by simp
  have 3: "Dirichlet_conjugate_update True ?d OtherD = Inl AssertionError"
    using contract_violations_raise[of OtherD True _ _ ?d] by simp
  have 4: "Binomial_init True (Tensor [] [10]) (Some (Tensor [] [1 / 2])) None None (PyNum (- 1))
       = Inl AssertionError"
    using contract_violations_raise[of _ True _ _ _ "PyNum (- 1)"]
    by (simp add: is_negative_def)
  have 5: "Binomial_init True (Tensor [] [10]) (Some (Tensor [] [1 / 2])) None None PyNotNumber
       = Inl AssertionError"
    using contract_violations_raise[of _ True _ _ _ PyNotNumber]
    by (simp add: is_Number_def)
  from 1 2 3 4 5 show ?thesis by (intro conjI)
qed

subsection \<open>Expansion\<close>

text \<open>
  C8. \<open>Binomial.expand\<close> gives the new instance the threshold of the old one.
  \<open>Uniform.expand\<close>, once or twice in a row, gives the new instance the bounds the
  first instance was built with, not broadcast, and the support of every instance is
  the interval between those bounds.
\<close>

theorem expand_preserves_auxiliary:
  "(Binomial_expand b bs = Inr b' \<longrightarrow> approx_sample_thresh b' = approx_sample_thresh b)
   \<and> (Uniform_expand u bs = Inr u' \<longrightarrow>
        unbroadcasted_low u' = unbroadcasted_low u
      \<and> unbroadcasted_high u' = unbroadcasted_high u
      \<and> Uniform_support u' = Interval (unbroadcasted_low u) (unbroadcasted_high u))
   \<and> (Uniform_expand u bs = Inr u' \<and> Uniform_expand u' bs' = Inr u'' \<longrightarrow>
        unbroadcasted_low u'' = unbroadcasted_low u
      \<and> unbroadcasted_high u'' = unbroadcasted_high u
      \<and> Uniform_support u'' = Interval (unbroadcasted_low u) (unbroadcasted_high u))"
proof -
  have B: "approx_sample_thresh y = approx_sample_thresh x" if "Binomial_expand x s = Inr y"
    for x y s
    using that by (auto simp: Binomial_expand_def err_bind_def split: sum.splits)
  have U: "unbroadcasted_low y = unbroadcasted_low x \<and> unbroadcasted_high y = unbroadcasted_high x"
    if "Uniform_expand x s = Inr y" for x y s
    using that by (auto simp: Uniform_expand_def err_bind_def split: sum.splits)
  show ?thesis
    using B[of b bs b'] U[of u bs u'] U[of u' bs' u''] by (simp add: Uniform_support_def)
qed


lemma expand_prefix_shape:
  "shape t = bs \<Longrightarrow> expand t (map int ss @ map int bs) = Inr (tabulate (ss @ bs) (bget t))"
  using expand_prefix[of t ss] by simp

lemma Binomial_expand_prefix:
  assumes "Binomial_wf d"
  shows "\<exists>d'. Binomial_expand d (ss @ Binomial.batch_shape d) = Inr d' \<and> Binomial_wf d'
           \<and> Binomial.batch_shape d' = ss @ Binomial.batch_shape d"
proof -
  let ?bs = "Binomial.batch_shape d"
  let ?e = "\<lambda>t. tabulate (ss @ ?bs) (bget t)"
  from assms have n: "expand (total_count d) (map int (ss @ ?bs)) = Inr (?e (total_count d))"
    by (simp add: Binomial_wf_def expand_prefix_shape)
  have p: "(case Binomial.probs d of None \<Rightarrow> Inr None
            | Some p \<Rightarrow> err_bind (expand p (map int (ss @ ?bs))) (\<lambda>p'. Inr (Some p')))
          = Inr (map_option ?e (Binomial.probs d))"
    using assms by (cases "Binomial.probs d")
      (simp_all add: Binomial_wf_def param_wf_def expand_prefix_shape)
  have l: "(case Binomial.logits d of None \<Rightarrow> Inr None
            | Some p \<Rightarrow> err_bind (expand p (map int (ss @ ?bs))) (\<lambda>p'. Inr (Some p')))
          = Inr (map_option ?e (Binomial.logits d))"
    using assms by (cases "Binomial.logits d")
      (simp_all add: Binomial_wf_def param_wf_def expand_prefix_shape)
  have "param_wf (ss @ ?bs) (map_option ?e x)" for x
    by (cases x) (simp_all add: param_wf_def)
  with assms show ?thesis
    unfolding Binomial_expand_def n p l err_bind_Inr
    by (simp add: Binomial_wf_def)
qed

lemma Uniform_expand_prefix:
  assumes "Uniform_wf u"
  shows "\<exists>u'. Uniform_expand u (ss @ Uniform.batch_shape u) = Inr u' \<and> Uniform_wf u'
           \<and> Uniform.batch_shape u' = ss @ Uniform.batch_shape u"
  using assms by (simp add: Uniform_expand_def Uniform_wf_def expand_prefix_shape)

theorem expand_preserves_auxiliary_witness:
  "(\<exists>b'. Binomial_expand
      \<lparr>total_count = Tensor [2] [10, 20], probs = Some (Tensor [2] [1 / 4, 3 / 4]), logits = None,
       param = Some (Tensor [2] [1 / 4, 3 / 4]), batch_shape = [2], validate_args = False,
       approx_sample_thresh = PyNum 5\<rparr> [3, 2] = Inr b'
      \<and> approx_sample_thresh b' = PyNum 5)
   \<and> (\<exists>u' u''. Uniform_expand
      \<lparr>unbroadcasted_low = Tensor [] [0], unbroadcasted_high = Tensor [2] [1, 2],
       low = Tensor [2] [0, 0], high = Tensor [2] [1, 2], batch_shape = [2],
       validate_args = False\<rparr> [3, 2] = Inr u'
      \<and> Uniform_expand u' [4, 3, 2] = Inr u''
      \<and> unbroadcasted_low u' = Tensor [] [0] \<and> unbroadcasted_high u' = Tensor [2] [1, 2]
      \<and> unbroadcasted_low u'' = Tensor [] [0] \<and> unbroadcasted_high u'' = Tensor [2] [1, 2]
      \<and> Uniform_support u'' = Interval (Tensor [] [0]) (Tensor [2] [1, 2]))"
proof -
  let ?b = "\<lparr>total_count = Tensor [2] [10, 20], probs = Some (Tensor [2] [1 / 4, 3 / 4 :: real]),
       logits = None, param = Some (Tensor [2] [1 / 4, 3 / 4 :: real]), batch_shape = [2],
       validate_args = False, approx_sample_thresh = PyNum 5\<rparr>"
  let ?u = "\<lparr>unbroadcasted_low = Tensor [] [0 :: real], unbroadcasted_high = Tensor [2] [1, 2 :: real],
       low = Tensor [2] [0, 0 :: real], high = Tensor [2] [1, 2 :: real], batch_shape = [2],
       validate_args = False\<rparr>"
  have "Binomial_wf ?b"
    by (simp add: Binomial_wf_def param_wf_def thresh_wf_def wf_tensor_def)
  from Binomial_expand_prefix[OF this, of "[3]"]
  obtain b' where b': "Binomial_expand ?b [3, 2] = Inr b'" by auto
  have "Uniform_wf ?u" by (simp add: Uniform_wf_def wf_tensor_def)
  from Uniform_expand_prefix[OF this, of "[3]"]
  obtain u' where u': "Uniform_expand ?u [3, 2] = Inr u'" and wf': "Uniform_wf u'"
    and bs': "Uniform.batch_shape u' = [3, 2]" by auto
  from Uniform_expand_prefix[OF wf', of "[4]"] bs'
  obtain u'' where u'': "Uniform_expand u' [4, 3, 2] = Inr u''" by auto
  from expand_preserves_auxiliary[of ?b "[3, 2]" b' ?u u' "[4, 3, 2]" u''] b' u' u''
  have "approx_sample_thresh b' = PyNum 5"
    and "unbroadcasted_low u' = Tensor [] [0] \<and> unbroadcasted_high u' = Tensor [2] [1, 2]"
    and "unbroadcasted_low u'' = Tensor [] [0] \<and> unbroadcasted_high u'' = Tensor [2] [1, 2]
       \<and> Uniform_support u'' = Interval (Tensor [] [0]) (Tensor [2] [1, 2])"
    by simp_all
  with b' u' u'' show ?thesis by blast
qed


lemma Binomial_expand_wf:
  assumes "Binomial_wf d" and "Binomial_expand d bs = Inr d'"
  shows "Binomial_wf d'"
proof -
  let ?e = "\<lambda>p. (case p of None \<Rightarrow> Inr None
         | Some t \<Rightarrow> err_bind (expand t (map int bs)) (\<lambda>t'. Inr (Some t')))"
  from assms(2) obtain n np nl where n: "expand (total_count d) (map int bs) = Inr n"
    and np: "?e (Binomial.probs d) = Inr np" and nl: "?e (Binomial.logits d) = Inr nl"
    and d': "d' = \<lparr>total_count = n, probs = np, logits = nl,
            param = (case nl of Some l' \<Rightarrow> Some l' | None \<Rightarrow> np),
            batch_shape = bs, validate_args = Binomial.validate_args d,
            approx_sample_thresh = approx_sample_thresh d\<rparr>"
    by (auto simp: Binomial_expand_def err_bind_def split: sum.splits)
  have p: "param_wf bs p'" if "?e p = Inr p'" for p p'
  proof (cases p)
    case None
    with that show ?thesis by (simp add: param_wf_def)
  next
    case (Some t)
    with that obtain t' where "expand t (map int bs) = Inr t'" "p' = Some t'"
      by (auto simp: err_bind_def split: sum.splits)
    then show ?thesis using expand_shape[of t bs t'] by (simp add: param_wf_def)
  qed
  have q: "p' \<noteq> None" if "?e p = Inr p'" and "p \<noteq> None" for p p'
    using that by (cases p) (auto simp: err_bind_def split: sum.splits)
  from assms(1) have "np \<noteq> None \<or> nl \<noteq> None"
    using q[OF np] q[OF nl] by (auto simp: Binomial_wf_def)
  moreover from assms(1) have "thresh_wf (approx_sample_thresh d)"
    by (simp add: Binomial_wf_def)
  ultimately show ?thesis
    using expand_shape[OF n] p[OF np] p[OF nl] by (simp add: d' Binomial_wf_def)
qed

lemma Uniform_init_wf: "Uniform_init validate lo hi va = Inr u \<Longrightarrow> Uniform_wf u"
  by (auto simp: Uniform_init_def Let_def broadcast_tensors_def Uniform_wf_def err_bind_def
      split: option.splits sum.splits if_splits)

lemma Uniform_expand_wf: "Uniform_expand u bs = Inr u' \<Longrightarrow> Uniform_wf u'"
  by (auto simp: Uniform_expand_def Uniform_wf_def err_bind_def split: sum.splits
      dest: expand_shape)


subsection \<open>Posteriors outside the parameter domain\<close>

lemma Beta_conjugate_update_invalid:
  assumes "Beta_wf p" "Beta_wf l"
    and bs: "broadcast_shapes (shape (concentration1 p)) (shape (concentration1 l)) = Some s"
    and v: "valid_index s idx"
    and le: "bget (concentration1 p) idx + bget (concentration1 l) idx \<le> 1"
  shows "Beta_conjugate_update True p (BetaD l) = Inl ValueError
       \<and> (\<exists>u n. Beta_conjugate_update False p (BetaD l) = Inr (u, n) \<and> \<not> Beta_valid u)"
proof
  from assms(1,2) bs
  have bs0: "broadcast_shapes (shape (concentration0 p)) (shape (concentration0 l)) = Some s"
    by (simp add: Beta_wf_def)
  have neg: "\<not> (\<forall>idx. valid_index s idx \<longrightarrow>
      0 < bget (concentration1 p) idx + bget (concentration1 l) idx - 1)"
    using v le by (auto intro!: exI[of _ idx])
  then show "Beta_conjugate_update True p (BetaD l) = Inl ValueError"
    by (simp add: Beta_conjugate_update_def binop_Inr[OF bs] binop_Inr[OF bs0] tmap_tabulate
        Beta_init_tabulate)
  have "\<not> Beta_valid \<lparr>concentration1 = tabulate s (\<lambda>idx.
             bget (concentration1 p) idx + bget (concentration1 l) idx - 1),
          concentration0 = tabulate s (\<lambda>idx.
             bget (concentration0 p) idx + bget (concentration0 l) idx - 1)\<rparr>"
    using neg by (simp add: Beta_valid_def tall_tabulate)
  then show "\<exists>u n. Beta_conjugate_update False p (BetaD l) = Inr (u, n) \<and> \<not> Beta_valid u"
    using Beta_conjugate_update_eq[OF assms(1,2) bs, of False] by simp
qed

lemma Gamma_conjugate_update_invalid:
  assumes "Gamma_wf p" "Gamma_wf l"
    and sh: "shape (Gamma.concentration l) = shape (Gamma.concentration p)"
    and v: "valid_index (shape (Gamma.concentration p)) idx"
    and le: "tget (Gamma.concentration p) idx + tget (Gamma.concentration l) idx \<le> 1"
  shows "Gamma_conjugate_update True p (GammaD l) = Inl ValueError
       \<and> (\<exists>u n. Gamma_conjugate_update False p (GammaD l) = Inr (u, n) \<and> \<not> Gamma_valid u)"
proof
  let ?s = "shape (Gamma.concentration p)"
  from assms(1,2) sh have sr: "shape (rate p) = ?s" "shape (rate l) = ?s"
    by (simp_all add: Gamma_wf_def)
  have neg: "\<not> (\<forall>idx. valid_index ?s idx \<longrightarrow>
      0 < tget (Gamma.concentration p) idx + tget (Gamma.concentration l) idx - 1)"
    using v le by (auto intro!: exI[of _ idx])
  then show "Gamma_conjugate_update True p (GammaD l) = Inl ValueError"
    by (simp add: Gamma_conjugate_update_def binop_same_shape[OF refl sh]
        binop_same_shape[OF sr] tmap_tabulate Gamma_init_tabulate)
  have "\<not> Gamma_valid \<lparr>Gamma.concentration = tabulate ?s (\<lambda>idx.
             tget (Gamma.concentration p) idx + tget (Gamma.concentration l) idx - 1),
          rate = tabulate ?s (\<lambda>idx. tget (rate p) idx + tget (rate l) idx)\<rparr>"
    using neg by (simp add: Gamma_valid_def tall_tabulate)
  then show "\<exists>u n. Gamma_conjugate_update False p (GammaD l) = Inr (u, n) \<and> \<not> Gamma_valid u"
    using Gamma_conjugate_update_eq[OF assms(1,2) sh, of False] by simp
qed

lemma Dirichlet_conjugate_update_invalid:
  assumes "Dirichlet_wf p" "Dirichlet_wf l"
    and bs: "broadcast_shapes (shape (Dirichlet.concentration p))
               (shape (Dirichlet.concentration l)) = Some s"
    and v: "valid_index s idx"
    and le: "bget (Dirichlet.concentration p) idx + bget (Dirichlet.concentration l) idx \<le> 1"
  shows "Dirichlet_conjugate_update True p (DirichletD l) = Inl ValueError
       \<and> (\<exists>u n. Dirichlet_conjugate_update False p (DirichletD l) = Inr (u, n)
              \<and> \<not> Dirichlet_valid u)"
proof
  from assms(1,2) have "shape (Dirichlet.concentration p) \<noteq> []"
    "shape (Dirichlet.concentration l) \<noteq> []"
    by (simp_all add: Dirichlet_wf_def)
  with broadcast_shapes_butlast[OF bs] have nes: "s \<noteq> []" by simp
  have neg: "\<not> (\<forall>idx. valid_index s idx \<longrightarrow>
      0 < bget (Dirichlet.concentration p) idx + bget (Dirichlet.concentration l) idx - 1)"
    using v le by (auto intro!: exI[of _ idx])
  then show "Dirichlet_conjugate_update True p (DirichletD l) = Inl ValueError"
    by (simp add: Dirichlet_conjugate_update_def binop_Inr[OF bs] tmap_tabulate
        Dirichlet_init_tabulate[OF nes])
  have "\<not> Dirichlet_valid \<lparr>Dirichlet.concentration = tabulate s (\<lambda>idx.
             bget (Dirichlet.concentration p) idx + bget (Dirichlet.concentration l) idx - 1)\<rparr>"
    using neg by (simp add: Dirichlet_valid_def tall_tabulate)
  then show "\<exists>u n. Dirichlet_conjugate_update False p (DirichletD l) = Inr (u, n)
              \<and> \<not> Dirichlet_valid u"
    using Dirichlet_conjugate_update_eq[OF assms(1,2) bs, of False] by simp
qed

text \<open>
  C10. \<open>conjugate_update\<close> does not keep the posterior inside the parameter domain.
  For two valid Beta distributions whose concentration1 sum to at most 1 in some batch
  element, the posterior's concentration1 is not positive there: with validation on the
  constructor of the posterior raises \<open>ValueError\<close>, and with validation off the call
  returns a Beta that violates the positivity constraint. The same holds for two valid
  Gamma distributions of one batch shape and for two valid Dirichlet distributions whose
  concentrations sum to at most 1 in some element.
\<close>

theorem conjugate_update_leaves_domain:
  "(Beta_valid bp \<and> Beta_valid bl
      \<and> broadcast_shapes (shape (concentration1 bp)) (shape (concentration1 bl)) = Some s
      \<and> valid_index s idx
      \<and> bget (concentration1 bp) idx + bget (concentration1 bl) idx \<le> 1
    \<longrightarrow> Beta_conjugate_update True bp (BetaD bl) = Inl ValueError
      \<and> (\<exists>u n. Beta_conjugate_update False bp (BetaD bl) = Inr (u, n) \<and> \<not> Beta_valid u))
   \<and> (Gamma_valid gp \<and> Gamma_valid gl
      \<and> shape (Gamma.concentration gl) = shape (Gamma.concentration gp)
      \<and> valid_index (shape (Gamma.concentration gp)) idx'
      \<and> tget (Gamma.concentration gp) idx' + tget (Gamma.concentration gl) idx' \<le> 1
    \<longrightarrow> Gamma_conjugate_update True gp (GammaD gl) = Inl ValueError
      \<and> (\<exists>u n. Gamma_conjugate_update False gp (GammaD gl) = Inr (u, n) \<and> \<not> Gamma_valid u))
   \<and> (Dirichlet_valid dp \<and> Dirichlet_valid dl
      \<and> broadcast_shapes (shape (Dirichlet.concentration dp))
           (shape (Dirichlet.concentration dl)) = Some s'
      \<and> valid_index s' idx''
      \<and> bget (Dirichlet.concentration dp) idx'' + bget (Dirichlet.concentration dl) idx'' \<le> 1
    \<longrightarrow> Dirichlet_conjugate_update True dp (DirichletD dl) = Inl ValueError
      \<and> (\<exists>u n. Dirichlet_conjugate_update False dp (DirichletD dl) = Inr (u, n)
             \<and> \<not> Dirichlet_valid u))"
  using Beta_conjugate_update_invalid[of bp bl s idx]
    Gamma_conjugate_update_invalid[of gp gl idx']
    Dirichlet_conjugate_update_invalid[of dp dl s' idx'']
  by (simp add: Beta_valid_def Gamma_valid_def Dirichlet_valid_def)

theorem conjugate_update_leaves_domain_witness:
  "Beta_valid \<lparr>concentration1 = Tensor [] [1 / 2], concentration0 = Tensor [] [1]\<rparr>
   \<and> Beta_conjugate_update True
        \<lparr>concentration1 = Tensor [] [1 / 2], concentration0 = Tensor [] [1]\<rparr>
        (BetaD \<lparr>concentration1 = Tensor [] [1 / 2], concentration0 = Tensor [] [1]\<rparr>)
      = Inl ValueError
   \<and> (\<exists>u n. Beta_conjugate_update False
        \<lparr>concentration1 = Tensor [] [1 / 2], concentration0 = Tensor [] [1]\<rparr>
        (BetaD \<lparr>concentration1 = Tensor [] [1 / 2], concentration0 = Tensor [] [1]\<rparr>)
      = Inr (u, n) \<and> \<not> Beta_valid u)
   \<and> Gamma_valid \<lparr>Gamma.concentration = Tensor [] [1 / 2], rate = Tensor [] [1]\<rparr>
   \<and> Gamma_conjugate_update True
        \<lparr>Gamma.concentration = Tensor [] [1 / 2], rate = Tensor [] [1]\<rparr>
        (GammaD \<lparr>Gamma.concentration = Tensor [] [1 / 2], rate = Tensor [] [1]\<rparr>)
      = Inl ValueError
   \<and> (\<exists>u n. Gamma_conjugate_update False
        \<lparr>Gamma.concentration = Tensor [] [1 / 2], rate = Tensor [] [1]\<rparr>
        (GammaD \<lparr>Gamma.concentration = Tensor [] [1 / 2], rate = Tensor [] [1]\<rparr>)
      = Inr (u, n) \<and> \<not> Gamma_valid u)
   \<and> Dirichlet_valid \<lparr>Dirichlet.concentration = Tensor [2] [1 / 2, 3]\<rparr>
   \<and> Dirichlet_conjugate_update True
        \<lparr>Dirichlet.concentration = Tensor [2] [1 / 2, 3]\<rparr>
        (DirichletD \<lparr>Dirichlet.concentration = Tensor [2] [1 / 2, 3]\<rparr>)
      = Inl ValueError
   \<and> (\<exists>u n. Dirichlet_conjugate_update False
        \<lparr>Dirichlet.concentration = Tensor [2] [1 / 2, 3]\<rparr>
        (DirichletD \<lparr>Dirichlet.concentration = Tensor [2] [1 / 2, 3]\<rparr>)
      = Inr (u, n) \<and> \<not> Dirichlet_valid u)"
proof -
  let ?b = "\<lparr>concentration1 = Tensor [] [1 / 2], concentration0 = Tensor [] [1 :: real]\<rparr>"
  let ?g = "\<lparr>Gamma.concentration = Tensor [] [1 / 2], rate = Tensor [] [1 :: real]\<rparr>"
  let ?d = "\<lparr>Dirichlet.concentration = Tensor [2] [1 / 2, 3 :: real]\<rparr>"
  have b: "Beta_valid ?b" by (simp add: Beta_valid_def Beta_wf_def wf_tensor_def tall_def)
  have g: "Gamma_valid ?g" by (simp add: Gamma_valid_def Gamma_wf_def wf_tensor_def tall_def)
  have d: "Dirichlet_valid ?d"
    by (simp add: Dirichlet_valid_def Dirichlet_wf_def wf_tensor_def tall_def)
  have hb: "broadcast_shapes (shape (concentration1 ?b)) (shape (concentration1 ?b)) = Some []
      \<and> valid_index [] [] \<and> bget (concentration1 ?b) [] + bget (concentration1 ?b) [] \<le> 1"
    by (simp add: bget_Nil)
  have hg: "shape (Gamma.concentration ?g) = shape (Gamma.concentration ?g)
      \<and> valid_index (shape (Gamma.concentration ?g)) []
      \<and> tget (Gamma.concentration ?g) [] + tget (Gamma.concentration ?g) [] \<le> 1"
    by (simp add: tget_def)
  have hd: "broadcast_shapes (shape (Dirichlet.concentration ?d))
           (shape (Dirichlet.concentration ?d)) = Some [2]
      \<and> valid_index [2] [0]
      \<and> bget (Dirichlet.concentration ?d) [0] + bget (Dirichlet.concentration ?d) [0] \<le> 1"
    by (simp add: bget_single)
  from conjugate_update_leaves_domain[of ?b ?b "[]" "[]" ?g ?g "[]" ?d ?d "[2]" "[0]"]
    b g d hb hg hd
  show ?thesis by blast
qed


subsection \<open>Independent\<close>

text \<open>
  C6. \<open>Independent.conjugate_update\<close> reads the attribute
  \<open>reintepreted_batch_ndims\<close>. The constructor sets \<open>reinterpreted_batch_ndims\<close>, and
  no attribute of the misspelt name exists, so the call raises \<open>AttributeError\<close> for
  every wrapped distribution, every number of reinterpreted dimensions and every other
  operand: it never delegates to the base distribution.
\<close>

theorem Independent_conjugate_update_raises:
  "getattr (Independent_attrs n) ''reinterpreted_batch_ndims'' = Inr (int n)
   \<and> conjugate_update validate (IndependentD base_dist n) other = Inl AttributeError"
  by (simp add: getattr_def Independent_attrs_def)


subsection \<open>Geometric\<close>

lemma shapes_compatible_broadcast_rev:
  "list_all (\<lambda>(i, j). i = 1 \<or> j = 1 \<or> i = j) (zip xs ys) \<Longrightarrow> \<exists>zs. broadcast_rev xs ys = Some zs"
  by (induction xs ys rule: broadcast_rev.induct) auto

lemma shapes_compatible_broadcast:
  "shapes_compatible a b \<Longrightarrow> \<exists>s. broadcast_shapes a b = Some s"
  using shapes_compatible_broadcast_rev[of "rev a" "rev b"]
  by (auto simp: shapes_compatible_def broadcast_shapes_def)

lemma broadcast_rev_absorb: "broadcast_rev xs ys = Some zs \<Longrightarrow> broadcast_rev zs ys = Some zs"
proof (induction xs ys arbitrary: zs rule: broadcast_rev.induct)
  case (1 ys)
  then show ?case by simp
next
  case (2 v va)
  then show ?case by simp
next
  case (3 x xs y ys)
  from "3.prems" obtain z zs' where zs: "zs = z # zs'" and r: "broadcast_rev xs ys = Some zs'"
    and z: "z = y \<or> y = 1"
    by (auto split: if_splits)
  have "broadcast_rev zs' ys = Some zs'"
  proof (cases "x = y \<or> y = 1")
    case True
    show ?thesis using "3.IH"(1)[OF True r] .
  next
    case False
    with "3.prems" have x1: "x = 1" by (auto split: if_splits)
    show ?thesis using "3.IH"(2)[OF False x1 r] .
  qed
  with zs z show ?case by auto
qed

lemma broadcast_shapes_absorb:
  "broadcast_shapes a b = Some s \<Longrightarrow> broadcast_shapes s b = Some s"
  using broadcast_rev_absorb[of "rev a" "rev b" "rev s"]
  by (auto simp: broadcast_shapes_def)

lemma softplus_logit:
  assumes "0 < p" "p < 1"
  shows "softplus (ln (p / (1 - p))) = - ln (1 - p)"
proof -
  from assms have "0 < p / (1 - p)" by simp
  then have "softplus (ln (p / (1 - p))) = ln (1 + p / (1 - p))"
    by (simp add: softplus_def)
  also from assms have "1 + p / (1 - p) = 1 / (1 - p)"
    by (simp add: field_simps)
  also from assms have "ln (1 / (1 - p)) = - ln (1 - p)"
    by (simp add: ln_div)
  finally show ?thesis .
qed

lemma Geometric_logit_formula:
  assumes "0 < p" "p < 1"
  shows "(- k - 1) * softplus (ln (p / (1 - p))) + ln (p / (1 - p)) = spec_Geometric_log_pmf p k"
proof -
  from assms have "ln (p / (1 - p)) = ln p - ln (1 - p)" by (simp add: ln_div)
  then show ?thesis
    using softplus_logit[OF assms] by (simp add: spec_Geometric_log_pmf_def algebra_simps)
qed

lemma Geometric_log_prob_compute:
  assumes wl: "wf_tensor (Geometric.logits g)" and wv: "wf_tensor value"
    and bs: "broadcast_shapes (shape value) (shape (Geometric.logits g)) = Some s"
  shows "err_bind (binop (*) (tmap (\<lambda>v. - v - 1) value) (tmap softplus (Geometric.logits g)))
           (\<lambda>a. binop (+) a (Geometric.logits g))
         = Inr (tabulate s (\<lambda>idx. (- bget value idx - 1) * softplus (bget (Geometric.logits g) idx)
                                 + bget (Geometric.logits g) idx))"
proof -
  let ?l = "Geometric.logits g"
  let ?a = "tabulate s (\<lambda>idx. bget (tmap (\<lambda>v. - v - 1) value) idx * bget (tmap softplus ?l) idx)"
  have a: "binop (*) (tmap (\<lambda>v. - v - 1) value) (tmap softplus ?l) = Inr ?a"
    using bs by (simp add: binop_Inr)
  have "binop (+) ?a ?l = Inr (tabulate s (\<lambda>idx. bget ?a idx + bget ?l idx))"
    using broadcast_shapes_absorb[OF bs] by (simp add: binop_Inr)
  also have "tabulate s (\<lambda>idx. bget ?a idx + bget ?l idx) =
      tabulate s (\<lambda>idx. (- bget value idx - 1) * softplus (bget ?l idx) + bget ?l idx)"
  proof (rule tabulate_cong)
    fix idx assume v: "valid_index s idx"
    have vv: "valid_index (shape value) (bindex (shape value) idx)"
      using bs v by (rule bindex_left)
    have vl: "valid_index (shape ?l) (bindex (shape ?l) idx)"
      using bs v by (rule bindex_right)
    have "bget ?a idx = bget (tmap (\<lambda>v. - v - 1) value) idx * bget (tmap softplus ?l) idx"
      using v by (simp add: bget_valid tget_tabulate)
    also have "\<dots> = (- bget value idx - 1) * softplus (bget ?l idx)"
      using wv wl vv vl by (simp add: bget_tmap)
    finally show "bget ?a idx + bget ?l idx =
        (- bget value idx - 1) * softplus (bget ?l idx) + bget ?l idx"
      by simp
  qed
  finally show ?thesis by (simp add: a)
qed

text \<open>
  C7. For a Geometric distribution and a value that passes the sample validation (its
  shape is compatible with the batch shape and its elements are non-negative integers),
  \<open>log_prob\<close> returns the tensor with the elements (-value - 1) * softplus(logits) +
  logits over the broadcast shape, and where the logit is log(p / (1 - p)) for a
  probability 0 < p < 1 the element is the Geometric log-probability value * log(1 - p)
  + log(p). With validation enabled, a value that fails the sample validation makes
  \<open>log_prob\<close> raise the validation's error and nothing is computed.
\<close>

theorem Geometric_log_prob_formula:
  "(wf_tensor (Geometric.logits g) \<and> wf_tensor value
      \<and> Geometric_validate_sample g value = Inr ()
    \<longrightarrow> (\<exists>s r. broadcast_shapes (shape value) (shape (Geometric.logits g)) = Some s
          \<and> Geometric_log_prob g value = Inr r \<and> shape r = s
          \<and> (\<forall>idx. valid_index s idx \<longrightarrow>
                tget r idx = (- bget value idx - 1) * softplus (bget (Geometric.logits g) idx)
                               + bget (Geometric.logits g) idx
              \<and> (\<forall>p. 0 < p \<and> p < 1 \<and> bget (Geometric.logits g) idx = ln (p / (1 - p)) \<longrightarrow>
                    tget r idx = spec_Geometric_log_pmf p (bget value idx)))))
   \<and> (Geometric.validate_args g \<and> Geometric_validate_sample g value = Inl e
    \<longrightarrow> Geometric_log_prob g value = Inl e)"
proof (intro conjI impI)
  assume h: "wf_tensor (Geometric.logits g) \<and> wf_tensor value
      \<and> Geometric_validate_sample g value = Inr ()"
  let ?l = "Geometric.logits g"
  from h have "shapes_compatible (shape value) (shape ?l)"
    by (auto simp: Geometric_validate_sample_def validate_sample_def split: if_splits)
  then obtain s where bs: "broadcast_shapes (shape value) (shape ?l) = Some s"
    using shapes_compatible_broadcast by blast
  let ?r = "tabulate s (\<lambda>idx. (- bget value idx - 1) * softplus (bget ?l idx) + bget ?l idx)"
  from h have wl: "wf_tensor ?l" and wv: "wf_tensor value" by simp_all
  from h have r: "Geometric_log_prob g value = Inr ?r"
    using Geometric_log_prob_compute[OF wl wv bs] by (simp add: Geometric_log_prob_def)
  have "tget ?r idx = (- bget value idx - 1) * softplus (bget ?l idx) + bget ?l idx
      \<and> (\<forall>p. 0 < p \<and> p < 1 \<and> bget ?l idx = ln (p / (1 - p)) \<longrightarrow>
            tget ?r idx = spec_Geometric_log_pmf p (bget value idx))"
    if v: "valid_index s idx" for idx
    using v by (auto simp: tget_tabulate Geometric_logit_formula)
  then have all: "\<forall>idx. valid_index s idx \<longrightarrow>
      tget ?r idx = (- bget value idx - 1) * softplus (bget ?l idx) + bget ?l idx
      \<and> (\<forall>p. 0 < p \<and> p < 1 \<and> bget ?l idx = ln (p / (1 - p)) \<longrightarrow>
            tget ?r idx = spec_Geometric_log_pmf p (bget value idx))"
    by blast
  have "broadcast_shapes (shape value) (shape ?l) = Some s
      \<and> Geometric_log_prob g value = Inr ?r \<and> shape ?r = s
      \<and> (\<forall>idx. valid_index s idx \<longrightarrow>
            tget ?r idx = (- bget value idx - 1) * softplus (bget ?l idx) + bget ?l idx
          \<and> (\<forall>p. 0 < p \<and> p < 1 \<and> bget ?l idx = ln (p / (1 - p)) \<longrightarrow>
                tget ?r idx = spec_Geometric_log_pmf p (bget value idx)))"
    by (intro conjI bs r shape_tabulate all)
  then show "\<exists>s r. broadcast_shapes (shape value) (shape ?l) = Some s
          \<and> Geometric_log_prob g value = Inr r \<and> shape r = s
          \<and> (\<forall>idx. valid_index s idx \<longrightarrow>
                tget r idx = (- bget value idx - 1) * softplus (bget ?l idx) + bget ?l idx
              \<and> (\<forall>p. 0 < p \<and> p < 1 \<and> bget ?l idx = ln (p / (1 - p)) \<longrightarrow>
                    tget r idx = spec_Geometric_log_pmf p (bget value idx)))"
    by blast
next
  assume "Geometric.validate_args g \<and> Geometric_validate_sample g value = Inl e"
  then show "Geometric_log_prob g value = Inl e"
    by (simp add: Geometric_log_prob_def)
qed


theorem Geometric_log_prob_formula_witness:
  "(\<exists>r. Geometric_log_prob \<lparr>logits = Tensor [2] [0, ln 3], validate_args = True\<rparr>
          (Tensor [2] [2, 0]) = Inr r
        \<and> shape r = [2]
        \<and> tget r [0] = spec_Geometric_log_pmf (1 / 2) 2
        \<and> tget r [1] = spec_Geometric_log_pmf (3 / 4) 0)
   \<and> Geometric_log_prob \<lparr>logits = Tensor [2] [0, ln 3], validate_args = True\<rparr>
        (Tensor [2] [- 1, 0]) = Inl ValueError"
proof -
  let ?g = "\<lparr>Geometric.logits = Tensor [2] [0, ln 3], validate_args = True\<rparr>"
  let ?v = "Tensor [2] [2, 0 :: real]"
  let ?w = "Tensor [2] [- 1, 0 :: real]"
  have ok: "wf_tensor (Geometric.logits ?g) \<and> wf_tensor ?v
      \<and> Geometric_validate_sample ?g ?v = Inr ()"
    by (simp add: wf_tensor_def Geometric_validate_sample_def validate_sample_def
        shapes_compatible_def tall_def is_integer_def)
  have bad: "Geometric.validate_args ?g \<and> Geometric_validate_sample ?g ?w = Inl ValueError"
    by (simp add: Geometric_validate_sample_def validate_sample_def
        shapes_compatible_def tall_def is_integer_def)
  from Geometric_log_prob_formula[of ?g ?v ValueError] ok
  obtain s r where s: "broadcast_shapes (shape ?v) (shape (Geometric.logits ?g)) = Some s"
    and r: "Geometric_log_prob ?g ?v = Inr r" and sr: "shape r = s"
    and all: "\<And>idx p. valid_index s idx \<Longrightarrow> 0 < p \<Longrightarrow> p < 1
        \<Longrightarrow> bget (Geometric.logits ?g) idx = ln (p / (1 - p))
        \<Longrightarrow> tget r idx = spec_Geometric_log_pmf p (bget ?v idx)"
    by blast
  from s have s2: "s = [2]" by simp
  have 0: "tget r [0] = spec_Geometric_log_pmf (1 / 2) 2"
    using all[of "[0]" "1 / 2"] by (simp add: s2 bget_single)
  have 1: "tget r [1] = spec_Geometric_log_pmf (3 / 4) 0"
    using all[of "[1]" "3 / 4"] by (simp add: s2 bget_single)
  from Geometric_log_prob_formula[of ?g ?w ValueError] bad
  have "Geometric_log_prob ?g ?w = Inl ValueError" by blast
  with r sr s2 0 1 show ?thesis by auto
qed


subsection \<open>Categorical: the enumerated support\<close>

lemma prod_list_replicate_1 [simp]: "prod_list (replicate b (1::nat)) = 1"
  by (induction b) simp_all

lemma view_arange:
  "view (arange K) (- 1 # replicate b 1) = Inr (Tensor (K # replicate b 1) (map int [0..<K]))"
proof -
  have f1: "filter (\<lambda>d. d \<noteq> - 1) (replicate b (1::int)) = replicate b 1"
    by (induction b) simp_all
  have f2: "filter (\<lambda>d. d = - 1) (replicate b (1::int)) = []"
    by (induction b) simp_all
  have f3: "map nat (replicate b (1::int)) = replicate b 1"
    by simp
  have f4: "\<not> list_ex (\<lambda>d. d < - 1) (replicate b (1::int))"
    by (simp add: list_ex_iff)
  have f5: "map (\<lambda>d. if d = - 1 then K else nat d) (replicate b (1::int)) = replicate b 1"
    by simp
  show ?thesis
    by (simp add: view_def arange_def Let_def f1 f2 f3 f4 f5)
qed

lemma Categorical_enumerate_support_False:
  "Categorical_enumerate_support d False =
     Inr \<lparr>tensor = Tensor (num_events d # replicate (length (Categorical_batch_shape d)) 1)
                      (map int [0..<num_events d]),
          pyro_categorical_support = Some (obj_id d)\<rparr>"
  by (simp add: Categorical_enumerate_support_def Let_def view_arange)

lemma expand_enum:
  "\<exists>t. expand (Tensor (K # replicate (length B) 1) xs) (- 1 # map int B) = Inr t"
proof -
  have "\<not> list_ex (\<lambda>(d, e). e \<noteq> - 1 \<and> e \<noteq> int d \<and> (d \<noteq> 1 \<or> e < 0))
          (zip (replicate (length B) 1) (map int B))"
    by (induction B) simp_all
  then show ?thesis
    by (simp add: expand_def dim_def Let_def)
qed

lemma Categorical_enumerate_support_True:
  "\<exists>v. Categorical_enumerate_support d True = Inr v \<and> pyro_categorical_support v = None"
proof -
  from expand_enum obtain t where
    "expand (Tensor (num_events d # replicate (length (Categorical_batch_shape d)) 1)
       (map int [0..<num_events d])) (- 1 # map int (Categorical_batch_shape d)) = Inr t"
    by blast
  then show ?thesis
    by (simp add: Categorical_enumerate_support_def Let_def view_arange)
qed

lemma Categorical_validate_enum:
  "Categorical_validate_sample d
     (Tensor (num_events d # replicate (length (Categorical_batch_shape d)) 1)
        (map int [0..<num_events d])) = Inr ()"
proof -
  have "list_all (\<lambda>(i, j). i = 1 \<or> j = 1 \<or> i = j) (zip (replicate b (1::nat) @ zs) ys)"
    if "length ys = b" for b zs ys
    using that by (induction ys arbitrary: b) auto
  then have "shapes_compatible (num_events d # replicate (length (Categorical_batch_shape d)) 1)
      (Categorical_batch_shape d)"
    by (simp add: shapes_compatible_def)
  moreover have "tall (\<lambda>v. 0 \<le> v \<and> v \<le> int (num_events d) - 1)
      (Tensor (num_events d # replicate (length (Categorical_batch_shape d)) 1)
         (map int [0..<num_events d]))"
    by (auto simp: tall_def list_all_iff)
  ultimately show ?thesis
    by (simp add: Categorical_validate_sample_def validate_sample_def)
qed


subsection \<open>Categorical: the fast path\<close>

lemma ravel_snoc1: "length idx = length s \<Longrightarrow> ravel (s @ [1]) (idx @ [0]) = ravel s idx"
  by (induction idx s rule: list_induct2) simp_all

lemma valid_index_snoc1: "valid_index s idx \<Longrightarrow> valid_index (s @ [1]) (idx @ [0])"
  unfolding valid_index_def by (rule list_all2_appendI) simp_all

lemma squeeze_last_tabulate:
  "squeeze_last (tabulate (s @ [1]) g) = tabulate s (\<lambda>idx. g (idx @ [0]))"
proof (rule tensor_eqI)
  show "wf_tensor (squeeze_last (tabulate (s @ [1]) g))"
    by (simp add: squeeze_last_def wf_tensor_def tabulate_def)
  show "wf_tensor (tabulate s (\<lambda>idx. g (idx @ [0])))" by simp
  show "shape (squeeze_last (tabulate (s @ [1]) g)) = shape (tabulate s (\<lambda>idx. g (idx @ [0])))"
    by (simp add: squeeze_last_def)
next
  fix idx assume "valid_index (shape (squeeze_last (tabulate (s @ [1]) g))) idx"
  then have v: "valid_index s idx" by (simp add: squeeze_last_def)
  then have len: "length idx = length s" by (rule valid_index_length)
  have "tget (squeeze_last (tabulate (s @ [1]) g)) idx = tget (tabulate (s @ [1]) g) (idx @ [0])"
    using ravel_snoc1[OF len] by (simp add: squeeze_last_def tget_def)
  also have "\<dots> = g (idx @ [0])"
    using valid_index_snoc1[OF v] by (simp add: tget_tabulate)
  finally show "tget (squeeze_last (tabulate (s @ [1]) g)) idx
      = tget (tabulate s (\<lambda>idx. g (idx @ [0]))) idx"
    using v by (simp add: tget_tabulate)
qed

lemma swap_ends: "length m = b \<Longrightarrow> swap 0 (Suc b) (x # m @ [y]) = y # m @ [x]"
  by (simp add: swap_def nth_append list_update_append)

lemma norm_dim_last: "0 < n \<Longrightarrow> norm_dim n (- 1) = Inr (n - 1)"
  by (auto simp: norm_dim_def nat_eq_iff)

lemma Categorical_shape:
  "Categorical_wf d \<Longrightarrow>
     shape (Categorical.logits d) = Categorical_batch_shape d @ [num_events d]"
  by (simp add: Categorical_wf_def Categorical_batch_shape_def num_events_def)

lemma Categorical_log_prob_fast:
  assumes wf: "Categorical_wf d"
    and v: "tensor value = Tensor (num_events d # replicate (length (Categorical_batch_shape d)) 1)
                             (map int [0..<num_events d])"
    and tag: "pyro_categorical_support value = Some (obj_id d)"
  shows "Categorical_log_prob d tracing value = Inr (support_log_prob d)"
proof -
  let ?L = "Categorical.logits d" and ?B = "Categorical_batch_shape d" and ?K = "num_events d"
  let ?b = "length ?B"
  let ?V = "Tensor (?K # replicate ?b 1) (map int [0..<?K])"
  let ?L1 = "Tensor (1 # ?B @ [?K]) (data ?L)"
  have sh: "shape ?L = ?B @ [?K]" using wf by (rule Categorical_shape)
  have dimL: "dim ?L = Suc ?b" by (simp add: dim_def sh)
  have val: "(if Categorical.validate_args d then Categorical_validate_sample d ?V else Inr ())
      = Inr ()"
    using Categorical_validate_enum[of d] by simp
  have sz0: "tsize ?V 0 = Inr ?K"
    by (simp add: tsize_def dim_def norm_dim_def)
  have szL: "tsize ?L (- 1) = Inr ?K"
    by (simp add: tsize_def dimL norm_dim_last sh)
  have chk: "(if \<not> tracing then
         err_bind (if Categorical.validate_args d then Categorical_validate_sample d ?V else Inr ())
           (\<lambda>_. err_bind (tsize ?V 0) (\<lambda>a. err_bind (tsize ?L (- 1))
              (\<lambda>b. if a = b then Inr () else Inl AssertionError)))
       else Inr ()) = Inr ()"
    by (simp only: val sz0 szL err_bind_Inr simp_thms if_True if_cancel)
  have rs: "(if dim ?L \<le> dim ?V
             then reshape ?L (replicate (1 + dim ?V - dim ?L) 1 @ shape ?L)
             else Inr ?L) = Inr ?L1"
    by (simp add: dim_def reshape_def sh)
  have sz1: "(if \<not> tracing then
         err_bind (tsize ?L1 (- 1 - int (dim ?V))) (\<lambda>s. if s = 1 then Inr () else Inl AssertionError)
       else Inr ()) = Inr ()"
    by (simp add: tsize_def dim_def norm_dim_def)
  have tr: "transpose ?L1 (- 1 - int (dim ?V)) (- 1) =
      Inr (tabulate (?K # ?B @ [1]) (\<lambda>idx. tget ?L1 (swap 0 (Suc ?b) idx)))"
  proof -
    have n: "nat (1 + int ?b) = Suc ?b" by simp
    show ?thesis
      using swap_ends[of ?B ?b 1 ?K] by (simp add: transpose_def dim_def norm_dim_def n)
  qed
  have "squeeze_last (tabulate (?K # ?B @ [1]) (\<lambda>idx. tget ?L1 (swap 0 (Suc ?b) idx)))
      = tabulate (?K # ?B) (\<lambda>idx. tget ?L1 (swap 0 (Suc ?b) (idx @ [0])))"
    using squeeze_last_tabulate[of "?K # ?B"] by simp
  also have "\<dots> = support_log_prob d"
    unfolding support_log_prob_def
  proof (rule tabulate_cong)
    fix idx assume "valid_index (?K # ?B) idx"
    then obtain k r where idx: "idx = k # r" and r: "valid_index ?B r"
      by (auto simp: valid_index_Cons)
    from r have "length r = ?b" by (rule valid_index_length)
    then have "swap 0 (Suc ?b) (idx @ [0]) = 0 # r @ [k]"
      using swap_ends[of r ?b k 0] by (simp add: idx)
    then show "tget ?L1 (swap 0 (Suc ?b) (idx @ [0])) = tget ?L (tl idx @ [hd idx])"
      by (simp add: tget_def sh idx)
  qed
  finally have sq: "squeeze_last (tabulate (?K # ?B @ [1]) (\<lambda>idx. tget ?L1 (swap 0 (Suc ?b) idx)))
      = support_log_prob d" .
  show ?thesis
    unfolding Categorical_log_prob_def Let_def v
    by (simp only: tag simp_thms if_True chk err_bind_Inr rs sz1 tr sq)
qed


subsection \<open>Categorical: the generic path on the enumerated support\<close>

lemma broadcast_rev_ones:
  "length ys = b \<Longrightarrow> broadcast_rev (replicate b 1 @ zs) ys = Some (ys @ zs)"
  by (induction ys arbitrary: b) auto

lemma broadcast_enum:
  "broadcast_shapes (K # replicate (length B) 1 @ [1]) (B @ [K]) = Some (K # B @ [K])"
proof -
  have "broadcast_rev (replicate (length B) 1 @ [K]) (rev B) = Some (rev B @ [K])"
    by (rule broadcast_rev_ones) simp
  then have "broadcast_rev (1 # replicate (length B) 1 @ [K]) (K # rev B) = Some (K # rev B @ [K])"
    by auto
  then show ?thesis by (simp add: broadcast_shapes_def)
qed

lemma bindex_same_length: "length s = length idx \<Longrightarrow> bindex s idx = map2 bpos s idx"
  by (simp add: bindex_def zip_rev rev_map[symmetric])

lemma bindex_drop:
  assumes "valid_index s idx"
  shows "bindex s (pre @ idx) = idx"
proof -
  from assms have len: "length idx = length s" by (rule valid_index_length)
  then have "zip (rev s) (rev idx @ rev pre) = zip (rev s) (rev idx)"
    by (simp add: zip_append2)
  then have "bindex s (pre @ idx) = bindex s idx" by (simp add: bindex_def)
  with assms show ?thesis by (simp add: bindex_valid)
qed

lemma valid_index_widen_last:
  assumes "valid_index (s @ [m]) idx" "m \<le> n"
  shows "valid_index (s @ [n]) idx"
proof -
  from assms(1) obtain us vs where idx: "idx = us @ vs" and us: "list_all2 (<) us s"
    and vs: "list_all2 (<) vs [m]"
    by (auto simp: valid_index_def list_all2_append2)
  from vs obtain v where v: "vs = [v]" "v < m"
    by (auto simp: list_all2_Cons2)
  with assms(2) have "list_all2 (<) vs [n]" by simp
  with us show ?thesis unfolding valid_index_def idx by (rule list_all2_appendI)
qed

lemma zip_same_not_less: "\<not> list_ex (\<lambda>(i, n). n < i) (zip xs (xs :: nat list))"
  by (induction xs) simp_all

lemma ravel_ones_snoc:
  "valid_index (replicate b 1 @ [1]) idx \<Longrightarrow> ravel (replicate b 1 @ [1]) idx = 0"
  using ravel_less[of "replicate b 1 @ [1]" idx] by simp

lemma tget_enum_unsqueezed:
  assumes "valid_index (K # replicate b 1 @ [1]) idx"
  shows "tget (Tensor (K # replicate b 1 @ [1]) (map int [0..<K])) idx = int (hd idx)"
proof -
  from assms obtain k r where idx: "idx = k # r" and k: "k < K"
    and r: "valid_index (replicate b 1 @ [1]) r"
    by (auto simp: valid_index_Cons)
  then show ?thesis using ravel_ones_snoc[of b r] by (simp add: tget_def)
qed

lemma bget_enum_unsqueezed:
  assumes "valid_index (K # B @ [K]) idx"
  shows "bget (Tensor (K # replicate (length B) 1 @ [1]) (map int [0..<K])) idx = int (hd idx)"
proof -
  let ?s = "K # replicate (length B) 1 @ [1]"
  from assms obtain k r where idx: "idx = k # r" and k: "k < K"
    by (auto simp: valid_index_Cons)
  from assms have len: "length ?s = length idx"
    using valid_index_length[OF assms] by simp
  have v: "valid_index ?s (bindex ?s idx)"
    using broadcast_enum assms by (rule bindex_left)
  have "hd (bindex ?s idx) = bpos K k"
    unfolding bindex_same_length[OF len] by (simp add: idx)
  also have "\<dots> = k" using k by (simp add: bpos_def)
  finally have "hd (bindex ?s idx) = hd idx" by (simp add: idx)
  with tget_enum_unsqueezed[OF v] show ?thesis by (simp add: bget_def)
qed

lemma Categorical_log_prob_generic_enum:
  assumes wf: "Categorical_wf d"
  shows "Categorical_log_prob_generic d
           (Tensor (num_events d # replicate (length (Categorical_batch_shape d)) 1)
              (map int [0..<num_events d]))
         = Inr (support_log_prob d)"
proof -
  let ?L = "Categorical.logits d" and ?B = "Categorical_batch_shape d" and ?K = "num_events d"
  let ?b = "length ?B"
  let ?V = "Tensor (?K # replicate ?b 1) (map int [0..<?K])"
  let ?V1 = "Tensor (?K # replicate ?b 1 @ [1]) (map int [0..<?K])"
  let ?S = "?K # ?B @ [?K]"
  let ?v1 = "tabulate (?K # ?B @ [1]) (\<lambda>idx. int (hd idx))"
  let ?pmf = "tabulate ?S (bget ?L)"
  have sh: "shape ?L = ?B @ [?K]" using wf by (rule Categorical_shape)
  from wf have K: "0 < ?K" by (simp add: Categorical_wf_def)
  have val: "(if Categorical.validate_args d then Categorical_validate_sample d ?V else Inr ())
      = Inr ()"
    using Categorical_validate_enum[of d] by simp
  have un: "unsqueeze_last ?V = ?V1" by (simp add: unsqueeze_last_def)
  have bt: "broadcast_tensors ?V1 ?L = Inr (tabulate ?S (bget ?V1), ?pmf)"
    using broadcast_enum[of ?K ?B] by (simp add: broadcast_tensors_def sh)
  have sub: "valid_index ?S idx" if "valid_index (?K # ?B @ [1]) idx" for idx
  proof -
    from that obtain k r where idx: "idx = k # r" and k: "k < ?K"
      and r: "valid_index (?B @ [1]) r"
      by (auto simp: valid_index_Cons)
    from K have "1 \<le> ?K" by simp
    with r have "valid_index (?B @ [?K]) r"
      by (rule valid_index_widen_last)
    with idx k show ?thesis by simp
  qed
  have "narrow_last1 (tabulate ?S (bget ?V1)) =
      Inr (tabulate (?K # ?B @ [1]) (tget (tabulate ?S (bget ?V1))))"
    using K by (simp add: narrow_last1_def butlast_append)
  also have "tabulate (?K # ?B @ [1]) (tget (tabulate ?S (bget ?V1))) = ?v1"
  proof (rule tabulate_cong)
    fix idx assume "valid_index (?K # ?B @ [1]) idx"
    then have vs: "valid_index ?S idx" by (rule sub)
    then have "tget (tabulate ?S (bget ?V1)) idx = bget ?V1 idx" by (rule tget_tabulate)
    also have "\<dots> = int (hd idx)" using vs by (rule bget_enum_unsqueezed)
    finally show "tget (tabulate ?S (bget ?V1)) idx = int (hd idx)" .
  qed
  finally have nl: "narrow_last1 (tabulate ?S (bget ?V1)) = Inr ?v1" .
  have rng: "tall (\<lambda>v. \<not> (v < 0 \<or> int ?K \<le> v)) ?v1"
    unfolding tall_tabulate by (auto simp: valid_index_Cons)
  then have rng': "\<not> list_ex (\<lambda>v. v < 0 \<or> int ?K \<le> v) (data ?v1)"
    by (simp add: tall_def list_all_iff list_ex_iff)
  have ga: "gather_last ?pmf ?v1 =
      Inr (tabulate (?K # ?B @ [1]) (\<lambda>idx. tget ?pmf (butlast idx @ [nat (tget ?v1 idx)])))"
    using rng' zip_same_not_less[of "?K # ?B"]
    by (simp add: gather_last_def dim_def butlast_append)
  have "squeeze_last (tabulate (?K # ?B @ [1])
          (\<lambda>idx. tget ?pmf (butlast idx @ [nat (tget ?v1 idx)])))
      = tabulate (?K # ?B) (\<lambda>idx. tget ?pmf (butlast (idx @ [0]) @ [nat (tget ?v1 (idx @ [0]))]))"
    using squeeze_last_tabulate[of "?K # ?B"
        "\<lambda>idx. tget ?pmf (butlast idx @ [nat (tget ?v1 idx)])"]
    by (simp only: append_Cons)
  also have "\<dots> = support_log_prob d"
    unfolding support_log_prob_def
  proof (rule tabulate_cong)
    fix idx assume v: "valid_index (?K # ?B) idx"
    then obtain k r where idx: "idx = k # r" and k: "k < ?K" and r: "valid_index ?B r"
      by (auto simp: valid_index_Cons)
    have "valid_index (?K # ?B @ [1]) (idx @ [0])"
      using valid_index_snoc1[OF v] by simp
    then have t: "tget ?v1 (idx @ [0]) = int k"
      by (simp add: tget_tabulate idx)
    have vr: "valid_index (?B @ [?K]) (r @ [k])"
      using r k unfolding valid_index_def by (intro list_all2_appendI) simp_all
    then have vs: "valid_index ?S (k # r @ [k])" using k by simp
    have "tget ?pmf (k # r @ [k]) = bget ?L (k # r @ [k])"
      using vs by (simp add: tget_tabulate)
    also have "\<dots> = tget ?L (r @ [k])"
      using bindex_drop[OF vr, of "[k]"] by (simp add: bget_def sh)
    finally show "tget ?pmf (butlast (idx @ [0]) @ [nat (tget ?v1 (idx @ [0]))])
        = tget ?L (tl idx @ [hd idx])"
      using t by (simp add: idx)
  qed
  finally have sq: "squeeze_last (tabulate (?K # ?B @ [1])
          (\<lambda>idx. tget ?pmf (butlast idx @ [nat (tget ?v1 idx)]))) = support_log_prob d" .
  show ?thesis
    unfolding Categorical_log_prob_generic_def
    by (simp only: val err_bind_Inr un bt prod.case nl ga sq)
qed


text \<open>
  C5. For a Categorical with at least one category, \<open>enumerate_support(expand=False)\<close>
  returns a value tagged with the identity of the distribution; \<open>log_prob\<close> on that
  value, by the reshape, transpose and squeeze of the logits, and the gather-based
  \<open>log_prob\<close> of the host framework on the same tensor both return the tensor whose
  element at category \<open>k\<close> and batch index \<open>i\<close> is the logit of \<open>k\<close> in the batch
  element \<open>i\<close>, tracing or not. A value whose tag is not the identity of the
  distribution, such as an untagged integer tensor, goes to the gather-based
  \<open>log_prob\<close>; the value of \<open>enumerate_support(expand=True)\<close> is untagged and so is
  one of them.
\<close>

theorem Categorical_log_prob_fast_path:
  "(Categorical_wf d \<longrightarrow>
      (\<exists>v. Categorical_enumerate_support d False = Inr v
          \<and> pyro_categorical_support v = Some (obj_id d)
          \<and> Categorical_log_prob d tracing v = Inr (support_log_prob d)
          \<and> Categorical_log_prob_generic d (tensor v) = Inr (support_log_prob d)))
   \<and> (pyro_categorical_support value \<noteq> Some (obj_id d) \<longrightarrow>
        Categorical_log_prob d tracing value = Categorical_log_prob_generic d (tensor value))
   \<and> (\<exists>v. Categorical_enumerate_support d True = Inr v
          \<and> pyro_categorical_support v = None
          \<and> Categorical_log_prob d tracing v = Categorical_log_prob_generic d (tensor v))"
proof (intro conjI impI)
  assume wf: "Categorical_wf d"
  let ?v = "\<lparr>tensor = Tensor (num_events d # replicate (length (Categorical_batch_shape d)) 1)
                      (map int [0..<num_events d]),
          pyro_categorical_support = Some (obj_id d)\<rparr>"
  have "Categorical_enumerate_support d False = Inr ?v"
    by (rule Categorical_enumerate_support_False)
  moreover have "pyro_categorical_support ?v = Some (obj_id d)" by simp
  moreover have "Categorical_log_prob d tracing ?v = Inr (support_log_prob d)"
    using wf by (rule Categorical_log_prob_fast) simp_all
  moreover have "Categorical_log_prob_generic d (tensor ?v) = Inr (support_log_prob d)"
    using Categorical_log_prob_generic_enum[OF wf] by simp
  ultimately show "\<exists>v. Categorical_enumerate_support d False = Inr v
          \<and> pyro_categorical_support v = Some (obj_id d)
          \<and> Categorical_log_prob d tracing v = Inr (support_log_prob d)
          \<and> Categorical_log_prob_generic d (tensor v) = Inr (support_log_prob d)"
    by blast
next
  assume "pyro_categorical_support value \<noteq> Some (obj_id d)"
  then show "Categorical_log_prob d tracing value = Categorical_log_prob_generic d (tensor value)"
    by (simp add: Categorical_log_prob_def)
next
  from Categorical_enumerate_support_True[of d] obtain v
    where v: "Categorical_enumerate_support d True = Inr v" "pyro_categorical_support v = None"
    by blast
  then have "Categorical_log_prob d tracing v = Categorical_log_prob_generic d (tensor v)"
    by (simp add: Categorical_log_prob_def)
  with v show "\<exists>v. Categorical_enumerate_support d True = Inr v
          \<and> pyro_categorical_support v = None
          \<and> Categorical_log_prob d tracing v = Categorical_log_prob_generic d (tensor v)"
    by blast
qed

lemma support_log_prob_example:
  "support_log_prob \<lparr>obj_id = 7, logits = Tensor [2, 3] [- 1, - 2, - 3, - 4, - 5, - 6],
      validate_args = True\<rparr>
   = Tensor [3, 2] [- 1, - 4, - 2, - 5, - 3, - 6]"
  by code_simp


lemma Categorical_log_prob_generic_example:
  "Categorical_log_prob_generic
     \<lparr>obj_id = 7, logits = Tensor [2, 3] [- 1, - 2, - 3, - 4, - 5, - 6], validate_args = True\<rparr>
     (Tensor [2] [2, 0])
   = Inr (Tensor [2] [- 3, - 4])"
  by code_simp

theorem Categorical_log_prob_fast_path_witness:
  "(\<exists>v. Categorical_enumerate_support
           \<lparr>obj_id = 7, logits = Tensor [2, 3] [- 1, - 2, - 3, - 4, - 5, - 6],
            validate_args = True\<rparr> False = Inr v
        \<and> pyro_categorical_support v = Some 7
        \<and> Categorical_log_prob
             \<lparr>obj_id = 7, logits = Tensor [2, 3] [- 1, - 2, - 3, - 4, - 5, - 6],
              validate_args = True\<rparr> False v
           = Inr (Tensor [3, 2] [- 1, - 4, - 2, - 5, - 3, - 6])
        \<and> Categorical_log_prob_generic
             \<lparr>obj_id = 7, logits = Tensor [2, 3] [- 1, - 2, - 3, - 4, - 5, - 6],
              validate_args = True\<rparr> (tensor v)
           = Inr (Tensor [3, 2] [- 1, - 4, - 2, - 5, - 3, - 6]))
   \<and> Categorical_log_prob
        \<lparr>obj_id = 7, logits = Tensor [2, 3] [- 1, - 2, - 3, - 4, - 5, - 6],
         validate_args = True\<rparr> False
        \<lparr>tensor = Tensor [2] [2, 0], pyro_categorical_support = None\<rparr>
      = Inr (Tensor [2] [- 3, - 4])"
proof -
  let ?d = "\<lparr>obj_id = 7, logits = Tensor [2, 3] [- 1, - 2, - 3, - 4, - 5, - 6 :: real],
            validate_args = True\<rparr>"
  let ?x = "\<lparr>tensor = Tensor [2] [2, 0 :: int], pyro_categorical_support = None\<rparr>"
  have wf: "Categorical_wf ?d"
    by (simp add: Categorical_wf_def wf_tensor_def num_events_def)
  have tag: "pyro_categorical_support ?x \<noteq> Some (obj_id ?d)" by simp
  note inst = Categorical_log_prob_fast_path[of ?d False ?x]
  from inst wf obtain v where "Categorical_enumerate_support ?d False = Inr v"
    and "pyro_categorical_support v = Some (obj_id ?d)"
    and "Categorical_log_prob ?d False v = Inr (support_log_prob ?d)"
    and "Categorical_log_prob_generic ?d (tensor v) = Inr (support_log_prob ?d)"
    by blast
  then have 1: "\<exists>v. Categorical_enumerate_support ?d False = Inr v
        \<and> pyro_categorical_support v = Some 7
        \<and> Categorical_log_prob ?d False v = Inr (Tensor [3, 2] [- 1, - 4, - 2, - 5, - 3, - 6])
        \<and> Categorical_log_prob_generic ?d (tensor v)
             = Inr (Tensor [3, 2] [- 1, - 4, - 2, - 5, - 3, - 6])"
    unfolding support_log_prob_example by auto
  from inst tag have "Categorical_log_prob ?d False ?x = Categorical_log_prob_generic ?d (tensor ?x)"
    by blast
  then have 2: "Categorical_log_prob ?d False ?x = Inr (Tensor [2] [- 3, - 4])"
    using Categorical_log_prob_generic_example by simp
  from 1 2 show ?thesis by (rule conjI)
qed


end
